theory Spec2Isabelle
  imports Main "HOL-Library.Sublist"
begin

section \<open>Go strings, as byte lists\<close>

text \<open>
  A Go string is a sequence of bytes and \<open>len\<close> counts bytes, so a string is a
  \<^typ>\<open>string\<close> (a list of 8-bit characters) and \<open>len s\<close> is \<^term>\<open>length s\<close>.
\<close>

abbreviation NL :: char where
  "NL \<equiv> CHR 0x0A"

text \<open>
  \<open>unicode.IsSpace\<close>: the UTF-8 encodings of the white-space runes
  (tab, LF, VT, FF, CR, space, U+0085, U+00A0, U+1680, U+2000..U+200A, U+2028, U+2029,
  U+202F, U+205F, U+3000). Each encoding starts with an ASCII byte or a lead byte, which
  never occurs inside another rune, so a white-space rune is found by comparing bytes.
\<close>

definition spaceRunes :: "string list" where
  "spaceRunes =
     [[CHR 0x09], [CHR 0x0A], [CHR 0x0B], [CHR 0x0C], [CHR 0x0D], [CHR 0x20],
      [CHR 0xC2, CHR 0x85], [CHR 0xC2, CHR 0xA0],
      [CHR 0xE1, CHR 0x9A, CHR 0x80],
      [CHR 0xE2, CHR 0x80, CHR 0x80], [CHR 0xE2, CHR 0x80, CHR 0x81],
      [CHR 0xE2, CHR 0x80, CHR 0x82], [CHR 0xE2, CHR 0x80, CHR 0x83],
      [CHR 0xE2, CHR 0x80, CHR 0x84], [CHR 0xE2, CHR 0x80, CHR 0x85],
      [CHR 0xE2, CHR 0x80, CHR 0x86], [CHR 0xE2, CHR 0x80, CHR 0x87],
      [CHR 0xE2, CHR 0x80, CHR 0x88], [CHR 0xE2, CHR 0x80, CHR 0x89],
      [CHR 0xE2, CHR 0x80, CHR 0x8A],
      [CHR 0xE2, CHR 0x80, CHR 0xA8], [CHR 0xE2, CHR 0x80, CHR 0xA9],
      [CHR 0xE2, CHR 0x80, CHR 0xAF],
      [CHR 0xE2, CHR 0x81, CHR 0x9F],
      [CHR 0xE3, CHR 0x80, CHR 0x80]]"

text \<open>The width in bytes of a white-space rune at the start of the string, 0 if none.\<close>

definition spaceWidth :: "string \<Rightarrow> nat" where
  "spaceWidth s = (case List.find (\<lambda>w. prefix w s) spaceRunes of None \<Rightarrow> 0 | Some w \<Rightarrow> length w)"

text \<open>The width in bytes of a white-space rune at the end of the string, 0 if none.\<close>

definition spaceWidthEnd :: "string \<Rightarrow> nat" where
  "spaceWidthEnd s = (case List.find (\<lambda>w. suffix w s) spaceRunes of None \<Rightarrow> 0 | Some w \<Rightarrow> length w)"

text \<open>\<open>strings.TrimSpace\<close>: drop the leading and the trailing white-space runes.\<close>

function trimLeftSpace :: "string \<Rightarrow> string" where
  "trimLeftSpace s = (if spaceWidth s = 0 then s else trimLeftSpace (drop (spaceWidth s) s))"
  by pat_completeness auto
termination
proof (relation "measure length")
  fix s :: string
  assume "spaceWidth s \<noteq> 0"
  moreover have "spaceWidth s \<le> length s"
    by (auto simp: spaceWidth_def prefix_length_le split: option.splits
        dest!: find_Some_iff [THEN iffD1])
  ultimately show "(drop (spaceWidth s) s, s) \<in> measure length" by simp
qed simp

declare trimLeftSpace.simps [simp del]

function trimRightSpace :: "string \<Rightarrow> string" where
  "trimRightSpace s =
     (if spaceWidthEnd s = 0 then s else trimRightSpace (take (length s - spaceWidthEnd s) s))"
  by pat_completeness auto
termination
proof (relation "measure length")
  fix s :: string
  assume "spaceWidthEnd s \<noteq> 0"
  moreover have "spaceWidthEnd s \<le> length s"
    by (auto simp: spaceWidthEnd_def suffix_length_le split: option.splits
        dest!: find_Some_iff [THEN iffD1])
  ultimately show "(take (length s - spaceWidthEnd s) s, s) \<in> measure length" by simp
qed simp

declare trimRightSpace.simps [simp del]

definition strings_TrimSpace :: "string \<Rightarrow> string" where
  "strings_TrimSpace s = trimRightSpace (trimLeftSpace s)"

text \<open>
  \<open>strings.Fields\<close>: the maximal runs of bytes between white-space runes; \<open>cur\<close> is
  the field being read.
\<close>

function fieldsLoop :: "string \<Rightarrow> string \<Rightarrow> string list" where
  "fieldsLoop cur [] = (if cur = [] then [] else [cur])"
| "fieldsLoop cur (c # cs) =
     (if spaceWidth (c # cs) > 0
      then (if cur = [] then [] else [cur]) @ fieldsLoop [] (drop (spaceWidth (c # cs)) (c # cs))
      else fieldsLoop (cur @ [c]) cs)"
  by pat_completeness auto
termination
  by (relation "measure (\<lambda>(cur, s). length s)") auto

definition strings_Fields :: "string \<Rightarrow> string list" where
  "strings_Fields s = fieldsLoop [] s"

text \<open>\<open>strings.Split(s, "\n")\<close>: always at least one piece.\<close>

fun strings_Split :: "string \<Rightarrow> string list" where
  "strings_Split [] = [[]]"
| "strings_Split (c # cs) =
     (if c = NL then [] # strings_Split cs
      else (c # hd (strings_Split cs)) # tl (strings_Split cs))"

text \<open>\<open>strings.Join(elems, sep)\<close>.\<close>

fun strings_Join :: "string list \<Rightarrow> string \<Rightarrow> string" where
  "strings_Join [] sep = []"
| "strings_Join [l] sep = l"
| "strings_Join (l # ls) sep = l @ sep @ strings_Join ls sep"

text \<open>\<open>strings.TrimRight(s, " \t")\<close>: drop the trailing spaces and tabs.\<close>

definition strings_TrimRight :: "string \<Rightarrow> string" where
  "strings_TrimRight s = rev (dropWhile (\<lambda>c. c = CHR '' '' \<or> c = CHR 0x09) (rev s))"

definition strings_HasSuffix :: "string \<Rightarrow> string \<Rightarrow> bool" where
  "strings_HasSuffix s suf = suffix suf s"

text \<open>\<open>strings.ReplaceAll(s, "\n", " ")\<close>.\<close>

definition replaceNewlines :: "string \<Rightarrow> string" where
  "replaceNewlines s = map (\<lambda>c. if c = NL then CHR '' '' else c) s"

text \<open>
  A call either returns a value, returns a Go \<open>error\<close> (modelled by its message), or
  panics.
\<close>

type_synonym error = string

datatype fault = Err error | Panic string

text \<open>
  \<open>strings.Repeat\<close> (Go's standard library, on a 64-bit platform) panics on a negative
  count, when \<open>len(s) * count\<close> overflows an \<open>int\<close>, and when the output is larger
  than the runtime allocates in one piece (\<open>maxAlloc\<close>, \<open>1 << 48\<close> bytes); the wording
  of the last two panics depends on the version of Go. Memory for an output within that
  limit is taken to be available, and no string that exists is longer than the limit.
\<close>

definition maxInt :: int where
  "maxInt = 2 ^ 63 - 1"

definition maxAlloc :: int where
  "maxAlloc = 2 ^ 48"

definition strings_Repeat :: "string \<Rightarrow> int \<Rightarrow> fault + string" where
  "strings_Repeat s count =
     (if count < 0 then Inl (Panic ''strings: negative Repeat count'')
      else if int (length s) * count > maxInt
      then Inl (Panic ''strings: Repeat output length overflow'')
      else if int (length s) * count > maxAlloc
      then Inl (Panic ''runtime error: makeslice: len out of range'')
      else Inr (concat (replicate (nat count) s)))"

section \<open>Configuration (pkg/config)\<close>

record HeadingConfig =
  Style :: string
  NormalizeLevels :: bool

record ListConfig =
  BulletStyle :: string
  NumberStyle :: string
  ConsistentIndentation :: bool

record CodeConfig =
  FenceStyle :: string
  LanguageDetection :: bool

record WhitespaceConfig =
  MaxBlankLines :: int
  TrimTrailingSpaces :: bool
  EnsureFinalNewline :: bool

record Config =
  LineWidth :: int
  Heading :: HeadingConfig
  List :: ListConfig
  Code :: CodeConfig
  Whitespace :: WhitespaceConfig

definition DefaultLineWidth :: int where
  "DefaultLineWidth = 80"

definition DefaultMaxBlankLines :: int where
  "DefaultMaxBlankLines = 2"

definition Default :: Config where
  "Default =
     \<lparr>LineWidth = DefaultLineWidth,
      Heading = \<lparr>Style = ''atx'', NormalizeLevels = True\<rparr>,
      List = \<lparr>BulletStyle = ''-'', NumberStyle = ''.'', ConsistentIndentation = True\<rparr>,
      Code = \<lparr>FenceStyle = ''```'', LanguageDetection = True\<rparr>,
      Whitespace = \<lparr>MaxBlankLines = DefaultMaxBlankLines, TrimTrailingSpaces = True,
                    EnsureFinalNewline = True\<rparr>\<rparr>"

section \<open>The tree (pkg/parser/ast.go)\<close>

datatype NodeType =
  NodeDocument | NodeHeading | NodeParagraph | NodeList | NodeListItem | NodeCodeBlock | NodeText

text \<open>
  The node structs, with their fields in the order of the source:
  Document (Children); Heading (Level, Text, Style); Paragraph (Text);
  List (Ordered, Items, Marker); ListItem (Text, Marker, Children);
  CodeBlock (Language, Content, Fenced, Fence); Text (Content).
  The items of a list are list items by type; the children of an item are any nodes.
  A tree is a value: no node is shared between two places of it.
\<close>

datatype Node =
    NDocument "Node list"
  | NHeading int string string
  | NParagraph string
  | NList PList
  | NListItem PListItem
  | NCodeBlock string string bool string
  | NText string
and PList = PList bool "PListItem list" string
and PListItem = PListItem string string "Node list"

text \<open>The root document is given by its \<open>Children\<close>.\<close>

type_synonym Document = "Node list"

fun nodeType :: "Node \<Rightarrow> NodeType" where
  "nodeType (NDocument cs) = NodeDocument"
| "nodeType (NHeading l t s) = NodeHeading"
| "nodeType (NParagraph t) = NodeParagraph"
| "nodeType (NList l) = NodeList"
| "nodeType (NListItem i) = NodeListItem"
| "nodeType (NCodeBlock lang c fenced fence) = NodeCodeBlock"
| "nodeType (NText c) = NodeText"

text \<open>\<open>NewWalker\<close>: the root, then its children; \<open>Next\<close> yields them in this order.\<close>

definition NewWalker :: "Document \<Rightarrow> Node list" where
  "NewWalker doc = [NDocument doc] @ doc"

section \<open>Regular expressions of the source, as matchers\<close>

text \<open>
  The pattern \<open>\[[^\]]*\]\([^)]*\)\<close> (a link construct) at the start of \<open>s\<close>. The
  label cannot contain \<open>]\<close> and the destination cannot contain \<open>)\<close>, so the label ends
  at the first \<open>]\<close>, which \<open>(\<close> must follow, and the destination ends at the next
  \<open>)\<close>. The result is the label, the destination and the text after the match.
\<close>

definition matchLink :: "string \<Rightarrow> (string \<times> string \<times> string) option" where
  "matchLink s =
     (case s of
        [] \<Rightarrow> None
      | c # s1 \<Rightarrow>
          if c \<noteq> CHR ''['' then None
          else (case dropWhile (\<lambda>x. x \<noteq> CHR '']'') s1 of
                  r # p # s3 \<Rightarrow>
                    if p \<noteq> CHR ''('' then None
                    else (case dropWhile (\<lambda>x. x \<noteq> CHR '')'') s3 of
                            [] \<Rightarrow> None
                          | q # rest \<Rightarrow>
                              Some (takeWhile (\<lambda>x. x \<noteq> CHR '']'') s1,
                                    takeWhile (\<lambda>x. x \<noteq> CHR '')'') s3, rest))
                | _ \<Rightarrow> None))"

text \<open>
  \<open>Regexp.ReplaceAllStringFunc\<close> (and \<open>ReplaceAllString\<close>): the matches are taken
  from left to right without overlap, and the text between them is copied. The matcher
  \<open>m\<close> gets the byte before the position (for \<open>\b\<close>) and the text from the position
  on; it answers with the replacement and the text after the match. Every pattern of
  the source matches at least one byte.
\<close>

function replaceAllFunc ::
  "(char option \<Rightarrow> string \<Rightarrow> (string \<times> string) option) \<Rightarrow> char option \<Rightarrow> string \<Rightarrow> string" where
  "replaceAllFunc m prev [] = []"
| "replaceAllFunc m prev (c # cs) =
     (case m prev (c # cs) of
        None \<Rightarrow> c # replaceAllFunc m (Some c) cs
      | Some (repl, rest) \<Rightarrow>
          if length rest \<le> length cs
          then repl @ replaceAllFunc m (Some (last (take (length (c # cs) - length rest) (c # cs)))) rest
          else c # replaceAllFunc m (Some c) cs)"
  by pat_completeness auto
termination
  by (relation "measure (\<lambda>(m, prev, s). length s)") auto

text \<open>\<open>Regexp.FindAllStringIndex(text, -1)\<close> for the link pattern; \<open>pos\<close> is the
  offset of the text still to search.\<close>

function findAllLinks :: "nat \<Rightarrow> string \<Rightarrow> (nat \<times> nat) list" where
  "findAllLinks pos [] = []"
| "findAllLinks pos (c # cs) =
     (case matchLink (c # cs) of
        None \<Rightarrow> findAllLinks (pos + 1) cs
      | Some (label, url, rest) \<Rightarrow>
          (pos, pos + (length (c # cs) - length rest))
            # findAllLinks (pos + (length (c # cs) - length rest)) rest)"
  by pat_completeness auto
termination
proof (relation "measure (\<lambda>(pos, s). length s)", goal_cases)
  case 1
  show ?case by simp
next
  case (2 pos c cs)
  show ?case by simp
next
  case (3 pos c cs x2 label y url rest)
  have d: "length (dropWhile P xs) \<le> length xs" for P and xs :: string
    by (induction xs) auto
  from 3 have "matchLink (c # cs) = Some (label, url, rest)"
    by simp
  then obtain r p s3 q
    where d1: "dropWhile (\<lambda>x. x \<noteq> CHR '']'') cs = r # p # s3"
      and d2: "dropWhile (\<lambda>x. x \<noteq> CHR '')'') s3 = q # rest"
    by (auto simp: matchLink_def split: list.splits if_splits)
  have "length (q # rest) \<le> length s3"
    using d [of "\<lambda>x. x \<noteq> CHR '')''" s3] d2 by simp
  moreover have "length (r # p # s3) \<le> length cs"
    using d [of "\<lambda>x. x \<noteq> CHR '']''" cs] d1 by simp
  ultimately show ?case
    by simp
qed

text \<open>The slice \<open>text[a:b]\<close>.\<close>

definition slice :: "string \<Rightarrow> nat \<Rightarrow> nat \<Rightarrow> string" where
  "slice text a b = take (b - a) (drop a text)"

section \<open>The renderer (pkg/renderer/renderer.go)\<close>

definition SecondHeadingLevel :: int where
  "SecondHeadingLevel = 2"

text \<open>
  The rendering functions append to the output buffer \<open>r.output\<close>: they take the
  buffer and return the extended one, or a fault. \<open>cfg\<close> is \<open>r.config\<close>.
\<close>

definition renderHeading :: "int \<Rightarrow> string \<Rightarrow> string \<Rightarrow> string \<Rightarrow> fault + string" where
  "renderHeading level text style out =
     (if style = ''setext'' \<and> level \<le> SecondHeadingLevel
      then (let out1 = out @ text @ [NL];
                marker = (if level = SecondHeadingLevel then ''-'' else ''='');
                textLength = int (length (strings_TrimSpace text));
                textLength1 = (if textLength = 0 then 3 else textLength)
            in case strings_Repeat marker textLength1 of
                 Inl f \<Rightarrow> Inl f
               | Inr underline \<Rightarrow> Inr (out1 @ underline @ [NL, NL]))
      else (case strings_Repeat ''#'' level of
              Inl f \<Rightarrow> Inl f
            | Inr hashes \<Rightarrow> Inr (out @ hashes @ '' '' @ text @ [NL, NL])))"

fun containsMarkdownLinks :: "string \<Rightarrow> bool" where
  "containsMarkdownLinks [] = False"
| "containsMarkdownLinks (c # cs) =
     (case matchLink (c # cs) of Some m \<Rightarrow> True | None \<Rightarrow> containsMarkdownLinks cs)"

text \<open>
  \<open>fixBrokenLinks\<close>. The first pattern is a link whose label has a line break; its
  first group is greedy, so the groups are the label before and after its last line
  break. The second pattern matches as the link pattern does, with the whole label as
  its first group.
\<close>

definition brokenLinkMatch :: "char option \<Rightarrow> string \<Rightarrow> (string \<times> string) option" where
  "brokenLinkMatch prev s =
     (case matchLink s of
        None \<Rightarrow> None
      | Some (label, url, rest) \<Rightarrow>
          if NL \<in> set label
          then (let part1 = rev (tl (dropWhile (\<lambda>x. x \<noteq> NL) (rev label)));
                    part2 = rev (takeWhile (\<lambda>x. x \<noteq> NL) (rev label));
                    linkText = part1 @ '' '' @ part2
                in Some (''['' @ linkText @ '']('' @ url @ '')'', rest))
          else None)"

definition multiBreakMatch :: "char option \<Rightarrow> string \<Rightarrow> (string \<times> string) option" where
  "multiBreakMatch prev s =
     (case matchLink s of
        None \<Rightarrow> None
      | Some (label, url, rest) \<Rightarrow>
          (let linkText = replaceNewlines label
           in Some (''['' @ linkText @ '']('' @ url @ '')'', rest)))"

definition fixBrokenLinks :: "string \<Rightarrow> string" where
  "fixBrokenLinks text =
     (let fixed = replaceAllFunc brokenLinkMatch None text
      in replaceAllFunc multiBreakMatch None fixed)"

fun tokenizeLoop :: "string \<Rightarrow> (nat \<times> nat) list \<Rightarrow> string list \<Rightarrow> nat \<Rightarrow> string list \<times> nat" where
  "tokenizeLoop text [] tokens lastEnd = (tokens, lastEnd)"
| "tokenizeLoop text ((start, end) # matches) tokens lastEnd =
     (let tokens1 = (if start > lastEnd
                     then tokens @ strings_Fields (slice text lastEnd start) else tokens);
          tokens2 = tokens1 @ [slice text start end]
      in tokenizeLoop text matches tokens2 end)"

definition tokenizeWithLinks :: "string \<Rightarrow> string list" where
  "tokenizeWithLinks text =
     (let matches = findAllLinks 0 text;
          (tokens, lastEnd) = tokenizeLoop text matches [] 0;
          tokens1 = (if lastEnd < length text
                     then tokens @ strings_Fields (drop lastEnd text) else tokens)
      in if length matches = 0 then strings_Fields text else tokens1)"

text \<open>
  The loop of \<open>wrapText\<close>, the same text in the renderer and in the paragraph rule:
  \<open>lines\<close> and \<open>cur\<close> (\<open>currentLine\<close>) are its variables, \<open>rest = []\<close> says that the
  token is the last one.
\<close>

fun wrapLoop :: "int \<Rightarrow> string list \<Rightarrow> string list \<Rightarrow> string \<Rightarrow> string list" where
  "wrapLoop width [] lines cur = lines"
| "wrapLoop width (token # rest) lines cur =
     (let (lines1, cur1) =
            (if length cur > 0 \<and> int (length cur) + 1 + int (length token) > width
             then (lines @ [cur], []) else (lines, cur));
          cur2 = (if length cur1 > 0 then cur1 @ '' '' else cur1) @ token;
          lines2 = (if rest = [] then lines1 @ [cur2] else lines1)
      in wrapLoop width rest lines2 cur2)"

definition wrapText :: "string \<Rightarrow> int \<Rightarrow> string" where
  "wrapText text width =
     (if width \<le> 0 then text
      else (let tokens = tokenizeWithLinks text
            in if length tokens = 0 then text
               else strings_Join (wrapLoop width tokens [] []) [NL]))"

definition renderParagraph :: "Config \<Rightarrow> string \<Rightarrow> string \<Rightarrow> fault + string" where
  "renderParagraph cfg text out =
     (let content = fixBrokenLinks text;
          content1 = (if LineWidth cfg > 0 \<and> \<not> containsMarkdownLinks content
                      then wrapText content (LineWidth cfg) else content)
      in Inr (out @ content1 @ [NL, NL]))"

definition renderCodeBlock :: "string \<Rightarrow> string \<Rightarrow> bool \<Rightarrow> string \<Rightarrow> string \<Rightarrow> fault + string" where
  "renderCodeBlock language content fenced fence out =
     (if fenced
      then (let out1 = out @ fence;
                out2 = (if language \<noteq> [] then out1 @ language else out1);
                out3 = out2 @ [NL] @ content;
                out4 = (if \<not> strings_HasSuffix content [NL] then out3 @ [NL] else out3)
            in Inr (out4 @ fence @ [NL, NL]))
      else Inr (foldl (\<lambda>buf line. buf @ ''    '' @ line @ [NL]) out (strings_Split content) @ [NL]))"

definition renderText :: "Config \<Rightarrow> string \<Rightarrow> string \<Rightarrow> fault + string" where
  "renderText cfg content out =
     (let content1 = (if TrimTrailingSpaces (Whitespace cfg)
                      then strings_Join (map strings_TrimRight (strings_Split content)) [NL]
                      else content)
      in Inr (out @ content1))"

text \<open>
  \<open>renderNode\<close> dispatches on the node's type; a node of any other type (a nested
  Document) is skipped. \<open>renderNodes\<close> is the loop over the children of a list item,
  \<open>renderItems\<close> the loop of \<open>renderList\<close>; each stops at the first fault.
\<close>

function (sequential) renderNode :: "Config \<Rightarrow> Node \<Rightarrow> int \<Rightarrow> string \<Rightarrow> fault + string"
  and renderNodes :: "Config \<Rightarrow> Node list \<Rightarrow> int \<Rightarrow> string \<Rightarrow> fault + string"
  and renderList :: "Config \<Rightarrow> PList \<Rightarrow> int \<Rightarrow> string \<Rightarrow> fault + string"
  and renderItems :: "Config \<Rightarrow> PListItem list \<Rightarrow> int \<Rightarrow> string \<Rightarrow> fault + string"
  and renderListItem :: "Config \<Rightarrow> PListItem \<Rightarrow> int \<Rightarrow> string \<Rightarrow> fault + string" where
  "renderNode cfg (NHeading level text style) depth out = renderHeading level text style out"
| "renderNode cfg (NParagraph text) depth out = renderParagraph cfg text out"
| "renderNode cfg (NList l) depth out = renderList cfg l depth out"
| "renderNode cfg (NListItem item) depth out = renderListItem cfg item depth out"
| "renderNode cfg (NCodeBlock language content fenced fence) depth out =
     renderCodeBlock language content fenced fence out"
| "renderNode cfg (NText content) depth out = renderText cfg content out"
| "renderNode cfg (NDocument children) depth out = Inr out"
| "renderNodes cfg [] depth out = Inr out"
| "renderNodes cfg (child # children) depth out =
     (case renderNode cfg child depth out of
        Inl f \<Rightarrow> Inl f
      | Inr out1 \<Rightarrow> renderNodes cfg children depth out1)"
| "renderList cfg (PList ordered items marker) depth out =
     (case renderItems cfg items (depth + 1) out of
        Inl f \<Rightarrow> Inl f
      | Inr out1 \<Rightarrow> Inr (out1 @ [NL]))"
| "renderItems cfg [] depth out = Inr out"
| "renderItems cfg (item # items) depth out =
     (case renderListItem cfg item depth out of
        Inl f \<Rightarrow> Inl f
      | Inr out1 \<Rightarrow> renderItems cfg items depth out1)"
| "renderListItem cfg (PListItem text marker children) depth out =
     (case (if depth > 1 then strings_Repeat ''  '' (depth - 1) else Inr []) of
        Inl f \<Rightarrow> Inl f
      | Inr indent \<Rightarrow>
          (let marker1 = (if marker = [] then BulletStyle (List cfg) else marker);
               out1 = out @ indent @ marker1 @ '' '' @ text
           in if length children > 0
              then renderNodes cfg children depth (out1 @ [NL])
              else Inr (out1 @ [NL])))"
  by pat_completeness auto
termination
  by (relation "measure (\<lambda>x. case x of
      Inl (Inl (cfg, n, d, out)) \<Rightarrow> size n
    | Inl (Inr (cfg, ns, d, out)) \<Rightarrow> size_list size ns
    | Inr (Inl (cfg, l, d, out)) \<Rightarrow> size l
    | Inr (Inr (Inl (cfg, items, d, out))) \<Rightarrow> size_list size items
    | Inr (Inr (Inr (cfg, i, d, out))) \<Rightarrow> size i)") auto

definition renderDocument :: "Config \<Rightarrow> Document \<Rightarrow> int \<Rightarrow> string \<Rightarrow> fault + string" where
  "renderDocument cfg doc depth out = renderNodes cfg doc depth out"

fun normalizeLoop :: "int \<Rightarrow> string list \<Rightarrow> string list \<Rightarrow> int \<Rightarrow> string list" where
  "normalizeLoop maxBlankLines [] result consecutiveEmpty = result"
| "normalizeLoop maxBlankLines (line # lines) result consecutiveEmpty =
     (if strings_TrimSpace line = []
      then (if consecutiveEmpty + 1 \<le> maxBlankLines
            then normalizeLoop maxBlankLines lines (result @ [line]) (consecutiveEmpty + 1)
            else normalizeLoop maxBlankLines lines result (consecutiveEmpty + 1))
      else normalizeLoop maxBlankLines lines (result @ [line]) 0)"

definition normalizeBlankLines :: "string \<Rightarrow> int \<Rightarrow> string" where
  "normalizeBlankLines text maxBlankLines =
     (if maxBlankLines < 0 then text
      else strings_Join (normalizeLoop maxBlankLines (strings_Split text) [] 0) [NL])"

text \<open>
  The renderer keeps its output buffer (\<open>output\<close>) and its configuration between calls; \<open>Render\<close>
  resets the buffer, stores the configuration and returns the text with the renderer's
  new state.
\<close>

record MarkdownRenderer =
  output_buf :: string
  config :: "Config option"

definition renderer_New :: MarkdownRenderer where
  "renderer_New = \<lparr>output_buf = [], config = None\<rparr>"

definition Render :: "MarkdownRenderer \<Rightarrow> Document \<Rightarrow> Config \<Rightarrow> fault + (string \<times> MarkdownRenderer)" where
  "Render r doc cfg =
     (let r1 = r\<lparr>output_buf := [], config := Some cfg\<rparr>
      in case renderDocument cfg doc 0 (output_buf r1) of
           Inl f \<Rightarrow> Inl f
         | Inr out \<Rightarrow>
             (let result = normalizeBlankLines out (MaxBlankLines (Whitespace cfg));
                  result1 = (if EnsureFinalNewline (Whitespace cfg) \<and> \<not> strings_HasSuffix result [NL]
                             then result @ [NL] else result)
              in Inr (result1, r1\<lparr>output_buf := out\<rparr>)))"

section \<open>The rule engine (package formatter)\<close>

definition HeadingFormatterPriority :: int where
  "HeadingFormatterPriority = 100"

definition ParagraphFormatterPriority :: int where
  "ParagraphFormatterPriority = 90"

definition ListFormatterPriority :: int where
  "ListFormatterPriority = 80"

definition CodeFormatterPriority :: int where
  "CodeFormatterPriority = 70"

definition WhitespaceFormatterPriority :: int where
  "WhitespaceFormatterPriority = 10"

definition InlineFormatterPriority :: int where
  "InlineFormatterPriority = 60"

definition AtxHeadingStyle :: string where
  "AtxHeadingStyle = ''atx''"

definition SetextHeadingStyle :: string where
  "SetextHeadingStyle = ''setext''"

definition MinHeadingLevel :: int where
  "MinHeadingLevel = 1"

definition MaxHeadingLevel :: int where
  "MaxHeadingLevel = 6"

definition SetextMaxLevel :: int where
  "SetextMaxLevel = 2"

text \<open>
  A rule (\<open>NodeFormatter\<close>) mutates the node it is given in place and returns an
  error or nil: \<open>Format\<close> returns the node after the call and the error, if any. A
  rule is taken to have no state of its own and to reach nothing but the node it is
  given and what is below it; the built-in rules are so.

  The root document holds its children by pointer, and the walker of \<open>Engine.Format\<close>
  holds the same pointers, copied before any rule runs. So for the root it matters which
  of its children after the call are the objects it had before: \<open>FormatRoot\<close> is
  \<open>Format\<close> called on the root; it returns the children the root had, as the call
  leaves them (in the same order, changed in place or not), and the root's
  \<open>Children\<close> slice after the call, each element being one of those objects, given by
  its index, or a new node.
\<close>

datatype ChildRef = OldChild nat | NewChild Node

record NodeFormatter =
  Name :: string
  CanFormat :: "NodeType \<Rightarrow> bool"
  Format :: "Node \<Rightarrow> Config \<Rightarrow> Node \<times> error option"
  FormatRoot :: "Node list \<Rightarrow> Config \<Rightarrow> (Node list \<times> ChildRef list) \<times> error option"
  Priority :: int

record Engine =
  formatters :: "NodeFormatter list"

subsection \<open>Heading\<close>

fun HeadingFormatter_Format :: "Node \<Rightarrow> Config \<Rightarrow> Node \<times> error option" where
  "HeadingFormatter_Format (NHeading level text style) cfg =
     (let style1 =
            (if Style (Heading cfg) = AtxHeadingStyle then AtxHeadingStyle
             else if Style (Heading cfg) = SetextHeadingStyle
             then (if level \<le> SetextMaxLevel then SetextHeadingStyle else AtxHeadingStyle)
             else style);
          level1 =
            (if NormalizeLevels (Heading cfg)
             then (let level2 = (if level > MaxHeadingLevel then MaxHeadingLevel else level)
                   in if level2 < MinHeadingLevel then MinHeadingLevel else level2)
             else level);
          text1 = strings_TrimSpace text
      in (NHeading level1 text1 style1, None))"
| "HeadingFormatter_Format node cfg = (node, None)"

subsection \<open>Paragraph\<close>

definition ParagraphFormatter_wrapText :: "string \<Rightarrow> int \<Rightarrow> string" where
  "ParagraphFormatter_wrapText text width =
     (if width \<le> 0 then text
      else (let words = strings_Fields text
            in if length words = 0 then text
               else strings_Join (wrapLoop width words [] []) [NL]))"

definition normalizeWhitespace :: "string \<Rightarrow> string" where
  "normalizeWhitespace text =
     strings_Join (map (\<lambda>line. strings_Join (strings_Fields line) '' '') (strings_Split text)) [NL]"

fun ParagraphFormatter_Format :: "Node \<Rightarrow> Config \<Rightarrow> Node \<times> error option" where
  "ParagraphFormatter_Format (NParagraph text) cfg =
     (let text1 = (if LineWidth cfg > 0 then ParagraphFormatter_wrapText text (LineWidth cfg)
                   else text);
          text2 = strings_TrimSpace text1;
          text3 = normalizeWhitespace text2
      in (NParagraph text3, None))"
| "ParagraphFormatter_Format node cfg = (node, None)"

subsection \<open>List\<close>

text \<open>\<open>fmt.Sprintf("%d", n)\<close> for a number that is not negative.\<close>

fun Sprintf_d :: "nat \<Rightarrow> string" where
  "Sprintf_d n =
     (if n < 10 then [''0123456789'' ! n]
      else Sprintf_d (n div 10) @ [''0123456789'' ! (n mod 10)])"

declare Sprintf_d.simps [simp del]

definition formatUnorderedList :: "PList \<Rightarrow> Config \<Rightarrow> PList" where
  "formatUnorderedList list cfg =
     (case list of PList ordered items marker \<Rightarrow>
        PList ordered
          (map (\<lambda>item. case item of PListItem text m children \<Rightarrow>
                  PListItem text (BulletStyle (List cfg)) children) items)
          (BulletStyle (List cfg)))"

definition formatOrderedList :: "PList \<Rightarrow> Config \<Rightarrow> PList" where
  "formatOrderedList list cfg =
     (case list of PList ordered items marker \<Rightarrow>
        PList ordered
          (map (\<lambda>(i, item). case item of PListItem text m children \<Rightarrow>
                  PListItem text
                    (if NumberStyle (List cfg) = ''.'' then Sprintf_d (i + 1) @ ''.''
                     else if NumberStyle (List cfg) = '')'' then Sprintf_d (i + 1) @ '')''
                     else Sprintf_d (i + 1) @ ''.'')
                    children)
             (enumerate 0 items))
          marker)"

text \<open>The number of nodes of a tree: the measure of the recursion through nested lists.\<close>

fun nodeCount :: "Node \<Rightarrow> nat"
  and listCount :: "PList \<Rightarrow> nat"
  and itemCount :: "PListItem \<Rightarrow> nat" where
  "nodeCount (NDocument children) = 1 + sum_list (map nodeCount children)"
| "nodeCount (NHeading level text style) = 1"
| "nodeCount (NParagraph text) = 1"
| "nodeCount (NList l) = 1 + listCount l"
| "nodeCount (NListItem item) = 1 + itemCount item"
| "nodeCount (NCodeBlock language content fenced fence) = 1"
| "nodeCount (NText content) = 1"
| "listCount (PList ordered items marker) = 1 + sum_list (map itemCount items)"
| "itemCount (PListItem text marker children) = 1 + sum_list (map nodeCount children)"

text \<open>
  \<open>formatList\<close> sets the markers and then runs \<open>processListItems\<close>, whose loop is
  \<open>processItems\<close>; \<open>processNestedLists\<close>, whose loop is \<open>processChildren\<close>, calls
  \<open>Format\<close> on each child that is a list, which is \<open>formatList\<close> again. Each loop
  returns at the first error.
\<close>

function (sequential) formatList :: "PList \<Rightarrow> Config \<Rightarrow> PList \<times> error option"
  and processListItems :: "PList \<Rightarrow> Config \<Rightarrow> PList \<times> error option"
  and processItems :: "PListItem list \<Rightarrow> Config \<Rightarrow> PListItem list \<times> error option"
  and processNestedLists :: "PListItem \<Rightarrow> Config \<Rightarrow> PListItem \<times> error option"
  and processChildren :: "Node list \<Rightarrow> Config \<Rightarrow> Node list \<times> error option" where
  "formatList (PList ordered items marker) cfg =
     processListItems
       (if \<not> ordered then formatUnorderedList (PList ordered items marker) cfg
        else formatOrderedList (PList ordered items marker) cfg) cfg"
| "processListItems (PList ordered items marker) cfg =
     (case processItems items cfg of (items1, err) \<Rightarrow> (PList ordered items1 marker, err))"
| "processItems [] cfg = ([], None)"
| "processItems (PListItem text marker children # items) cfg =
     (let text1 = (if ConsistentIndentation (List cfg)
                   then normalizeWhitespace (strings_TrimSpace text) else text)
      in case processNestedLists (PListItem text1 marker children) cfg of
           (item1, Some err) \<Rightarrow> (item1 # items, Some err)
         | (item1, None) \<Rightarrow>
             (case processItems items cfg of (items1, err) \<Rightarrow> (item1 # items1, err)))"
| "processNestedLists (PListItem text marker children) cfg =
     (case processChildren children cfg of
        (children1, err) \<Rightarrow> (PListItem text marker children1, err))"
| "processChildren [] cfg = ([], None)"
| "processChildren (NList childList # children) cfg =
     (case formatList childList cfg of
        (childList1, Some err) \<Rightarrow> (NList childList1 # children, Some err)
      | (childList1, None) \<Rightarrow>
          (case processChildren children cfg of
             (children1, err) \<Rightarrow> (NList childList1 # children1, err)))"
| "processChildren (child # children) cfg =
     (case processChildren children cfg of (children1, err) \<Rightarrow> (child # children1, err))"
  by pat_completeness auto
termination
proof (relation "measure (\<lambda>x. case x of
      Inl (Inl (l, cfg)) \<Rightarrow> 2 * listCount l + 1
    | Inl (Inr (l, cfg)) \<Rightarrow> 2 * listCount l
    | Inr (Inl (items, cfg)) \<Rightarrow> 2 * sum_list (map itemCount items) + 1
    | Inr (Inr (Inl (item, cfg))) \<Rightarrow> 2 * itemCount item
    | Inr (Inr (Inr (children, cfg))) \<Rightarrow> 2 * sum_list (map nodeCount children) + 1)",
    goal_cases)
  case (2 ordered items marker cfg)
  have key: "itemCount (case item of PListItem text m children \<Rightarrow> PListItem text mk children)
      = itemCount item" for item mk
    by (cases item) simp
  have "sum_list (map (\<lambda>item. itemCount (case item of PListItem text m children \<Rightarrow>
          PListItem text mk children)) xs) = sum_list (map itemCount xs)"
    for mk and xs :: "PListItem list"
    by (simp add: key)
  then have u: "listCount (formatUnorderedList (PList ordered items marker) cfg)
      = listCount (PList ordered items marker)"
    by (simp add: formatUnorderedList_def comp_def)
  have "sum_list (map (\<lambda>(i, item). itemCount (case item of PListItem text m children \<Rightarrow>
          PListItem text (g i) children)) (enumerate n xs)) = sum_list (map itemCount xs)"
    for g and n and xs :: "PListItem list"
    by (induction xs arbitrary: n) (simp_all add: key)
  then have o: "listCount (formatOrderedList (PList ordered items marker) cfg)
      = listCount (PList ordered items marker)"
    by (simp add: formatOrderedList_def comp_def case_prod_unfold)
  show ?case using u o by (cases ordered) simp_all
qed simp_all

definition formatListItem :: "PListItem \<Rightarrow> Config \<Rightarrow> PListItem \<times> error option" where
  "formatListItem item cfg =
     (case item of PListItem text marker children \<Rightarrow>
        processNestedLists (PListItem (normalizeWhitespace (strings_TrimSpace text)) marker children) cfg)"

fun ListFormatter_Format :: "Node \<Rightarrow> Config \<Rightarrow> Node \<times> error option" where
  "ListFormatter_Format (NList n) cfg =
     (case formatList n cfg of (n1, err) \<Rightarrow> (NList n1, err))"
| "ListFormatter_Format (NListItem n) cfg =
     (case formatListItem n cfg of (n1, err) \<Rightarrow> (NListItem n1, err))"
| "ListFormatter_Format node cfg = (node, None)"

subsection \<open>Code block\<close>

fun CodeBlockFormatter_Format :: "Node \<Rightarrow> Config \<Rightarrow> Node \<times> error option" where
  "CodeBlockFormatter_Format (NCodeBlock language content fenced fence) cfg =
     (let fence1 = (if FenceStyle (Code cfg) = ''```'' then ''```''
                    else if FenceStyle (Code cfg) = ''~~~'' then ''~~~'' else fence)
      in (NCodeBlock language content fenced fence1, None))"
| "CodeBlockFormatter_Format node cfg = (node, None)"

subsection \<open>Whitespace\<close>

definition trimTrailingSpaces :: "string \<Rightarrow> string" where
  "trimTrailingSpaces text = strings_Join (map strings_TrimRight (strings_Split text)) [NL]"

fun WhitespaceFormatter_Format :: "Node \<Rightarrow> Config \<Rightarrow> Node \<times> error option" where
  "WhitespaceFormatter_Format (NDocument children) cfg = (NDocument children, None)"
| "WhitespaceFormatter_Format (NParagraph text) cfg =
     (if TrimTrailingSpaces (Whitespace cfg) then (NParagraph (trimTrailingSpaces text), None)
      else (NParagraph text, None))"
| "WhitespaceFormatter_Format (NHeading level text style) cfg =
     (if TrimTrailingSpaces (Whitespace cfg)
      then (NHeading level (strings_TrimSpace text) style, None)
      else (NHeading level text style, None))"
| "WhitespaceFormatter_Format (NCodeBlock language content fenced fence) cfg =
     (if TrimTrailingSpaces (Whitespace cfg)
      then (NCodeBlock language
              (strings_Join (map strings_TrimRight (strings_Split content)) [NL]) fenced fence, None)
      else (NCodeBlock language content fenced fence, None))"
| "WhitespaceFormatter_Format (NText content) cfg =
     (if TrimTrailingSpaces (Whitespace cfg) then (NText (trimTrailingSpaces content), None)
      else (NText content, None))"
| "WhitespaceFormatter_Format node cfg = (node, None)"

subsection \<open>Inline\<close>

text \<open>The classes \<open>\s\<close> and \<open>\w\<close> of the regular expressions (ASCII only).\<close>

definition isRegexSpace :: "char \<Rightarrow> bool" where
  "isRegexSpace c = (c = CHR 0x09 \<or> c = CHR 0x0A \<or> c = CHR 0x0C \<or> c = CHR 0x0D \<or> c = CHR 0x20)"

definition isWordChar :: "char \<Rightarrow> bool" where
  "isWordChar c =
     (let n = (of_char c :: nat)
      in (48 \<le> n \<and> n \<le> 57) \<or> (65 \<le> n \<and> n \<le> 90) \<or> (97 \<le> n \<and> n \<le> 122) \<or> n = 95)"

text \<open>
  The patterns \<open>`\s+([^`]+)\s+`\<close> and \<open>\[\s+([^\]]+)\s+\]\<close>, replaced by the
  delimiters around the first group. The body runs to the first closing delimiter; it
  matches when it has three bytes or more and starts and ends with white space. The
  first \<open>\s+\<close> is greedy and takes the leading white space (but leaves two bytes), the
  group takes the rest but the last byte.
\<close>

definition paddedSpanMatch :: "char \<Rightarrow> char \<Rightarrow> char option \<Rightarrow> string \<Rightarrow> (string \<times> string) option" where
  "paddedSpanMatch opn cls prev s =
     (case s of
        [] \<Rightarrow> None
      | c # s1 \<Rightarrow>
          if c \<noteq> opn then None
          else (let body = takeWhile (\<lambda>x. x \<noteq> cls) s1
                in case dropWhile (\<lambda>x. x \<noteq> cls) s1 of
                     [] \<Rightarrow> None
                   | q # rest \<Rightarrow>
                       if length body \<ge> 3 \<and> isRegexSpace (hd body) \<and> isRegexSpace (last body)
                       then (let n = length body;
                                 lead = min (length (takeWhile isRegexSpace body)) (n - 2);
                                 group1 = take (n - 1 - lead) (drop lead body)
                             in Some ([opn] @ group1 @ [cls], rest))
                       else None))"

text \<open>
  The pattern \<open>\b_([^_]+)_\b\<close>, replaced by \<open>*$1*\<close>: the byte before the opening
  underscore and the byte after the closing one are not word bytes.
\<close>

definition emphasisMatch :: "char option \<Rightarrow> string \<Rightarrow> (string \<times> string) option" where
  "emphasisMatch prev s =
     (case s of
        [] \<Rightarrow> None
      | c # s1 \<Rightarrow>
          if c \<noteq> CHR ''_'' then None
          else if (case prev of None \<Rightarrow> False | Some p \<Rightarrow> isWordChar p) then None
          else (let body = takeWhile (\<lambda>x. x \<noteq> CHR ''_'') s1
                in case dropWhile (\<lambda>x. x \<noteq> CHR ''_'') s1 of
                     [] \<Rightarrow> None
                   | q # rest \<Rightarrow>
                       if body \<noteq> [] \<and> (case rest of [] \<Rightarrow> True | d # ds \<Rightarrow> \<not> isWordChar d)
                       then Some (''*'' @ body @ ''*'', rest)
                       else None))"

definition normalizeInlineCode :: "string \<Rightarrow> string" where
  "normalizeInlineCode text = replaceAllFunc (paddedSpanMatch CHR ''`'' CHR ''`'') None text"

definition normalizeEmphasis :: "string \<Rightarrow> string" where
  "normalizeEmphasis text = replaceAllFunc emphasisMatch None text"

definition normalizeLinks :: "string \<Rightarrow> string" where
  "normalizeLinks text = replaceAllFunc (paddedSpanMatch CHR ''['' CHR '']'') None text"

definition normalizeInlineElements :: "string \<Rightarrow> string" where
  "normalizeInlineElements text = normalizeLinks (normalizeEmphasis (normalizeInlineCode text))"

fun InlineFormatter_Format :: "Node \<Rightarrow> Config \<Rightarrow> Node \<times> error option" where
  "InlineFormatter_Format (NText content) cfg = (NText (normalizeInlineElements content), None)"
| "InlineFormatter_Format (NParagraph text) cfg = (NParagraph (normalizeInlineElements text), None)"
| "InlineFormatter_Format node cfg = (node, None)"

subsection \<open>The engine\<close>

text \<open>
  No built-in rule changes a Document: the type switch or the type assertion of each
  \<open>Format\<close> has no case for it, and the case that \<open>WhitespaceFormatter.Format\<close> has
  is empty. The root keeps its children, and \<open>Format\<close> returns nil.
\<close>

definition rootUnchanged :: "Node list \<Rightarrow> Config \<Rightarrow> (Node list \<times> ChildRef list) \<times> error option" where
  "rootUnchanged doc cfg = ((doc, map OldChild [0..<length doc]), None)"

text \<open>
  \<open>RegisterDefaults\<close> registers \<open>&HeadingFormatter{}\<close> and so on: the embedded
  \<open>BaseFormatter\<close> has its zero value, so each built-in rule has the name \<open>""\<close> and
  the priority 0.
\<close>

definition HeadingFormatter :: NodeFormatter where
  "HeadingFormatter =
     \<lparr>Name = [], CanFormat = (\<lambda>nodeType. nodeType = NodeHeading),
      Format = HeadingFormatter_Format, FormatRoot = rootUnchanged, Priority = 0\<rparr>"

definition ParagraphFormatter :: NodeFormatter where
  "ParagraphFormatter =
     \<lparr>Name = [], CanFormat = (\<lambda>nodeType. nodeType = NodeParagraph),
      Format = ParagraphFormatter_Format, FormatRoot = rootUnchanged, Priority = 0\<rparr>"

definition ListFormatter :: NodeFormatter where
  "ListFormatter =
     \<lparr>Name = [], CanFormat = (\<lambda>nodeType. nodeType = NodeList \<or> nodeType = NodeListItem),
      Format = ListFormatter_Format, FormatRoot = rootUnchanged, Priority = 0\<rparr>"

definition CodeBlockFormatter :: NodeFormatter where
  "CodeBlockFormatter =
     \<lparr>Name = [], CanFormat = (\<lambda>nodeType. nodeType = NodeCodeBlock),
      Format = CodeBlockFormatter_Format, FormatRoot = rootUnchanged, Priority = 0\<rparr>"

definition InlineFormatter :: NodeFormatter where
  "InlineFormatter =
     \<lparr>Name = [], CanFormat = (\<lambda>nodeType. nodeType = NodeText \<or> nodeType = NodeParagraph),
      Format = InlineFormatter_Format, FormatRoot = rootUnchanged, Priority = 0\<rparr>"

definition WhitespaceFormatter :: NodeFormatter where
  "WhitespaceFormatter =
     \<lparr>Name = [], CanFormat = (\<lambda>nodeType. True),
      Format = WhitespaceFormatter_Format, FormatRoot = rootUnchanged, Priority = 0\<rparr>"

text \<open>
  The constructors \<open>NewHeadingFormatter\<close> and \<open>NewInlineFormatter\<close> set a name and a
  priority; \<open>RegisterDefaults\<close> does not use them.
\<close>

definition NewHeadingFormatter :: NodeFormatter where
  "NewHeadingFormatter = HeadingFormatter\<lparr>Name := ''heading'', Priority := HeadingFormatterPriority\<rparr>"

definition NewInlineFormatter :: NodeFormatter where
  "NewInlineFormatter = InlineFormatter\<lparr>Name := ''inline'', Priority := InlineFormatterPriority\<rparr>"

text \<open>
  \<open>Register\<close> appends the rule and moves it towards the front while its priority is
  greater than that of the rule before it. \<open>bubble\<close> works on the rules before the new
  one, the nearest first, and returns the list in that reversed order.
\<close>

fun bubble :: "NodeFormatter \<Rightarrow> NodeFormatter list \<Rightarrow> NodeFormatter list" where
  "bubble formatter [] = [formatter]"
| "bubble formatter (former # others) =
     (if Priority formatter > Priority former then former # bubble formatter others
      else formatter # former # others)"

definition Register :: "Engine \<Rightarrow> NodeFormatter \<Rightarrow> Engine" where
  "Register e formatter = e\<lparr>formatters := rev (bubble formatter (rev (formatters e)))\<rparr>"

definition RegisterDefaults :: "Engine \<Rightarrow> Engine" where
  "RegisterDefaults e =
     Register (Register (Register (Register (Register (Register e
       HeadingFormatter) ParagraphFormatter) ListFormatter) CodeBlockFormatter)
       InlineFormatter) WhitespaceFormatter"

definition formatter_New :: Engine where
  "formatter_New = RegisterDefaults \<lparr>formatters = []\<rparr>"

text \<open>
  An engine from the rules registered on it, in the order of the calls of
  \<open>Register\<close>, starting from \<open>&Engine{}\<close>.
\<close>

definition registerAll :: "NodeFormatter list \<Rightarrow> Engine" where
  "registerAll rules = foldl Register \<lparr>formatters = []\<rparr> rules"

text \<open>The inner loop of \<open>Engine.Format\<close>: the first rule that claims the node's type
  is applied, and no other. \<open>applyFirst\<close> is the loop for a node other than the root,
  \<open>applyFirstRoot\<close> the loop for the root.\<close>

fun applyFirst :: "NodeFormatter list \<Rightarrow> Node \<Rightarrow> Config \<Rightarrow> Node \<times> error option" where
  "applyFirst [] node cfg = (node, None)"
| "applyFirst (formatter # rest) node cfg =
     (if CanFormat formatter (nodeType node) then Format formatter node cfg
      else applyFirst rest node cfg)"

fun applyFirstRoot ::
  "NodeFormatter list \<Rightarrow> Document \<Rightarrow> Config \<Rightarrow> (Node list \<times> ChildRef list) \<times> error option" where
  "applyFirstRoot [] doc cfg = rootUnchanged doc cfg"
| "applyFirstRoot (formatter # rest) doc cfg =
     (if CanFormat formatter NodeDocument then FormatRoot formatter doc cfg
      else applyFirstRoot rest doc cfg)"

text \<open>The outer loop over the walker's nodes; it returns at the first error, leaving
  the nodes not yet reached as they are.\<close>

fun formatNodes :: "NodeFormatter list \<Rightarrow> Config \<Rightarrow> Node list \<Rightarrow> Node list \<times> error option" where
  "formatNodes fs cfg [] = ([], None)"
| "formatNodes fs cfg (node # nodes) =
     (case applyFirst fs node cfg of
        (node1, Some err) \<Rightarrow> (node1 # nodes, Some err)
      | (node1, None) \<Rightarrow>
          (case formatNodes fs cfg nodes of (nodes1, err) \<Rightarrow> (node1 # nodes1, err)))"

text \<open>
  The walker's nodes after the first are the children that the root had when the walker
  was made, whatever the rule for the root has put into the root since:
  \<open>walkerChildren\<close> gives these objects as the rule for the root has left them
  (\<open>olds\<close>; an object that the rule does not report is as it was).
  \<open>childrenAfter\<close> is the root's \<open>Children\<close> slice read with the objects as they
  are; an index that names none of them yields nothing.
\<close>

definition walkerChildren :: "Node list \<Rightarrow> Node list \<Rightarrow> Node list" where
  "walkerChildren snapshot olds = take (length snapshot) olds @ drop (length olds) snapshot"

definition childrenAfter :: "ChildRef list \<Rightarrow> Node list \<Rightarrow> Document" where
  "childrenAfter refs objs =
     concat (map (\<lambda>ref. case ref of
                          OldChild i \<Rightarrow> (if i < length objs then [objs ! i] else [])
                        | NewChild node \<Rightarrow> [node]) refs)"

text \<open>
  \<open>Engine.Format\<close>. The walker's first node is the root, the others are the root's
  children at the time of \<open>NewWalker\<close>: a node that the rule for the root adds to the
  root is not visited, and a node that it removes is. The result is the document after
  the call, and the error, if any.
\<close>

definition Engine_Format :: "Engine \<Rightarrow> Document \<Rightarrow> Config \<Rightarrow> Document \<times> error option" where
  "Engine_Format e doc cfg =
     (case applyFirstRoot (formatters e) doc cfg of
        ((olds, refs), Some err) \<Rightarrow>
          (childrenAfter refs (walkerChildren (tl (NewWalker doc)) olds), Some err)
      | ((olds, refs), None) \<Rightarrow>
          (case formatNodes (formatters e) cfg (walkerChildren (tl (NewWalker doc)) olds) of
             (objs, err) \<Rightarrow> (childrenAfter refs objs, err)))"

section \<open>The pipeline (formatMarkdownContent)\<close>

text \<open>
  \<open>formatMarkdownContent\<close> parses, formats and renders. The parser is goldmark,
  outside this repository: \<open>parse\<close> stands for \<open>parser.DefaultParser().Parse\<close>.
  \<open>formatAndRender\<close> is the rest of the function, from the engine and the renderer
  it builds: the source builds the engine with \<open>formatter.New()\<close> followed by
  \<open>RegisterDefaults()\<close> and the renderer with \<open>renderer.New()\<close>.
\<close>

definition formatAndRender ::
  "Engine \<Rightarrow> MarkdownRenderer \<Rightarrow> Document \<Rightarrow> Config \<Rightarrow> fault + string" where
  "formatAndRender engine mdRenderer doc cfg =
     (case Engine_Format engine doc cfg of
        (doc1, Some formatErr) \<Rightarrow> Inl (Err (''failed to format document: '' @ formatErr))
      | (doc1, None) \<Rightarrow>
          (case Render mdRenderer doc1 cfg of
             Inl (Err err) \<Rightarrow> Inl (Err (''failed to render document: '' @ err))
           | Inl (Panic p) \<Rightarrow> Inl (Panic p)
           | Inr (formatted, r) \<Rightarrow> Inr formatted))"

definition formatMarkdownContent ::
  "(string \<Rightarrow> error + Document) \<Rightarrow> string \<Rightarrow> Config \<Rightarrow> fault + string" where
  "formatMarkdownContent parse content cfg =
     (case parse content of
        Inl err \<Rightarrow> Inl (Err (''failed to parse markdown: '' @ err))
      | Inr doc \<Rightarrow> formatAndRender (RegisterDefaults formatter_New) renderer_New doc cfg)"

text \<open>\<open>BasicParser.Parse\<close> (pkg/parser/parser.go): one paragraph with the content.\<close>

definition BasicParser_Parse :: "string \<Rightarrow> error + Document" where
  "BasicParser_Parse content = Inr [NParagraph content]"

section \<open>Notions used in the statements\<close>

text \<open>
  The lines of a text: each line is ended by a line break, and what follows the last
  line break is a line too, unless it is empty.
\<close>

definition outputLines :: "string \<Rightarrow> string list" where
  "outputLines text =
     (let pieces = strings_Split text
      in if last pieces = [] then butlast pieces else pieces)"

text \<open>A configuration with \<open>max_blank_lines: k\<close>.\<close>

definition blankLinesConfig :: "int \<Rightarrow> Config" where
  "blankLinesConfig k = Default\<lparr>Whitespace := (Whitespace Default)\<lparr>MaxBlankLines := k\<rparr>\<rparr>"

text \<open>
  The length of the longest run of consecutive blank lines, a line being blank when
  only white space is on it (as \<open>normalizeBlankLines\<close> decides it); \<open>run\<close> is the
  number of blank lines just before the first line.
\<close>

fun longestBlankRun :: "nat \<Rightarrow> string list \<Rightarrow> nat" where
  "longestBlankRun run [] = run"
| "longestBlankRun run (line # lines) =
     (if strings_TrimSpace line = [] then longestBlankRun (run + 1) lines
      else max run (longestBlankRun 0 lines))"

text \<open>
  A tree of the data model that fits in memory, as the renderer reaches it at the depth
  \<open>depth\<close>: every heading has a level between 1 and 6 and a text within the allocation
  limit, and the indentation of every list item, two bytes for each level of nesting
  below the first, is within the limit. The renderer skips a nested Document and all
  below it.
\<close>

fun nodeFits :: "int \<Rightarrow> Node \<Rightarrow> bool"
  and listFits :: "int \<Rightarrow> PList \<Rightarrow> bool"
  and itemFits :: "int \<Rightarrow> PListItem \<Rightarrow> bool" where
  "nodeFits depth (NHeading level text style) =
     (MinHeadingLevel \<le> level \<and> level \<le> MaxHeadingLevel \<and> int (length text) \<le> maxAlloc)"
| "nodeFits depth (NList l) = listFits depth l"
| "nodeFits depth (NListItem item) = itemFits depth item"
| "nodeFits depth (NDocument children) = True"
| "nodeFits depth (NParagraph text) = True"
| "nodeFits depth (NCodeBlock language content fenced fence) = True"
| "nodeFits depth (NText content) = True"
| "listFits depth (PList ordered items marker) = list_all (itemFits (depth + 1)) items"
| "itemFits depth (PListItem text marker children) =
     (2 * (depth - 1) \<le> maxAlloc \<and> list_all (nodeFits depth) children)"

text \<open>
  Following the specification: the nodes of a tree in pre-order, each node before the
  nodes nested below it (the items of a list, the children of an item).
\<close>

fun preorder :: "Node \<Rightarrow> Node list"
  and preorderList :: "PList \<Rightarrow> Node list"
  and preorderItem :: "PListItem \<Rightarrow> Node list" where
  "preorder (NDocument children) = NDocument children # concat (map preorder children)"
| "preorder (NHeading level text style) = [NHeading level text style]"
| "preorder (NParagraph text) = [NParagraph text]"
| "preorder (NList l) = preorderList l"
| "preorder (NListItem item) = preorderItem item"
| "preorder (NCodeBlock language content fenced fence) = [NCodeBlock language content fenced fence]"
| "preorder (NText content) = [NText content]"
| "preorderList (PList ordered items marker) =
     NList (PList ordered items marker) # concat (map preorderItem items)"
| "preorderItem (PListItem text marker children) =
     NListItem (PListItem text marker children) # concat (map preorder children)"

text \<open>
  Two rules that return an error, as a caller of the engine may register them: the
  first refuses Text nodes, the second every node.
\<close>

definition strictTextRule :: NodeFormatter where
  "strictTextRule =
     \<lparr>Name = ''strict-text'', CanFormat = (\<lambda>nodeType. nodeType = NodeText),
      Format = (\<lambda>node cfg. (node, Some ''raw text is not allowed'')),
      FormatRoot = rootUnchanged, Priority = 200\<rparr>"

definition rejectAllRule :: NodeFormatter where
  "rejectAllRule =
     \<lparr>Name = ''reject-all'', CanFormat = (\<lambda>nodeType. True),
      Format = (\<lambda>node cfg. (node, Some ''rejected'')),
      FormatRoot = (\<lambda>doc cfg. (fst (rootUnchanged doc cfg), Some ''rejected'')),
      Priority = 300\<rparr>"

text \<open>
  A rule for the root that changes the root's children: it takes the first child out of
  the document and appends a new Text node.
\<close>

definition appendNoteRule :: NodeFormatter where
  "appendNoteRule =
     \<lparr>Name = ''append-note'', CanFormat = (\<lambda>nodeType. nodeType = NodeDocument),
      Format = (\<lambda>node cfg. (node, None)),
      FormatRoot = (\<lambda>doc cfg. ((doc, map OldChild [1..<length doc] @ [NewChild (NText ''end _x_ '')]), None)),
      Priority = 50\<rparr>"

text \<open>A configuration with \<open>consistent_indentation: false\<close>.\<close>

definition looseListConfig :: Config where
  "looseListConfig = Default\<lparr>List := (List Default)\<lparr>ConsistentIndentation := False\<rparr>\<rparr>"

section \<open>Lemmas on strings\<close>

lemma split_nonempty: "strings_Split s \<noteq> []"
  by (cases s) auto

lemma split_no_NL: "l \<in> set (strings_Split s) \<Longrightarrow> NL \<notin> set l"
proof (induction s arbitrary: l)
  case Nil
  then show ?case by simp
next
  case (Cons c cs)
  have ne: "strings_Split cs \<noteq> []" by (rule split_nonempty)
  show ?case
  proof (cases "c = NL")
    case True
    with Cons show ?thesis by auto
  next
    case False
    from Cons.prems False
    have "l = c # hd (strings_Split cs) \<or> l \<in> set (tl (strings_Split cs))"
      by simp
    then show ?thesis
    proof
      assume "l = c # hd (strings_Split cs)"
      moreover have "NL \<notin> set (hd (strings_Split cs))" using Cons.IH ne by simp
      ultimately show ?thesis using False by auto
    next
      assume "l \<in> set (tl (strings_Split cs))"
      then have "l \<in> set (strings_Split cs)" using ne by (meson list.set_sel(2))
      then show ?thesis by (rule Cons.IH)
    qed
  qed
qed

lemma split_append_line:
  "NL \<notin> set l \<Longrightarrow> strings_Split (l @ NL # s) = l # strings_Split s"
  by (induction l) auto

lemma split_line: "NL \<notin> set l \<Longrightarrow> strings_Split l = [l]"
  by (induction l) auto

lemma split_join:
  "ls \<noteq> [] \<Longrightarrow> \<forall>l\<in>set ls. NL \<notin> set l \<Longrightarrow> strings_Split (strings_Join ls [NL]) = ls"
proof (induction ls "[NL]" rule: strings_Join.induct)
  case 1
  then show ?case by simp
next
  case (2 l)
  then show ?case by (simp add: split_line)
next
  case (3 l v va)
  then show ?case by (simp add: split_append_line)
qed

section \<open>C1: the underline of a level-1 setext heading\<close>

text \<open>
  C1 fails on the code: for the level-1 setext heading with text \<open>Hi\<close> the renderer
  emits an underline of two \<open>=\<close>, not of \<open>max(3, 2) = 3\<close>. The source sets the
  length to 3, which its comment calls the minimum length, only when the trimmed text
  is empty; so the minimum is not kept for a text of one or two bytes.
\<close>

theorem setext_level1_Hi_underline:
  "renderNode Default (NHeading 1 ''Hi'' ''setext'') 0 [] = Inr (''Hi'' @ [NL] @ ''=='' @ [NL, NL])
   \<and> renderNode Default (NHeading 1 ''Hi'' ''setext'') 0 []
       \<noteq> Inr (''Hi'' @ [NL] @ replicate (max 3 (length (strings_TrimSpace ''Hi''))) CHR ''=''
              @ [NL, NL])
   \<and> renderNode Default (NHeading 1 '' '' ''setext'') 0 [] = Inr ('' '' @ [NL] @ ''==='' @ [NL, NL])"
  by code_simp

section \<open>Lemmas on the engine\<close>

lemma formatNodes_ok:
  "\<forall>n\<in>set ns. snd (applyFirst fs n cfg) = None
   \<Longrightarrow> formatNodes fs cfg ns = (map (\<lambda>n. fst (applyFirst fs n cfg)) ns, None)"
  by (induction ns) (auto split: prod.splits option.splits)

lemma formatNodes_abort:
  "\<forall>n\<in>set before. snd (applyFirst fs n cfg) = None
   \<Longrightarrow> applyFirst fs node cfg = (node1, Some err)
   \<Longrightarrow> formatNodes fs cfg (before @ node # after)
       = (map (\<lambda>n. fst (applyFirst fs n cfg)) before @ node1 # after, Some err)"
  by (induction before) (auto split: prod.splits option.splits)

text \<open>
  \<open>Register\<close> inserts the new rule behind the rules whose priority is not lower, so
  the engine's list is the stable sort of the registered rules by priority, the highest
  first.
\<close>

lemma bubble_insort: "bubble f fs = insort_key Priority f fs"
  by (induction fs) auto

lemma registerAll_sort: "formatters (registerAll rules) = rev (sort_key Priority (rev rules))"
proof (induction rules rule: rev_induct)
  case Nil
  then show ?case by (simp add: registerAll_def)
next
  case (snoc r rs)
  then show ?case by (simp add: registerAll_def Register_def bubble_insort)
qed

lemma registerAll_sorted:
  "sorted_wrt (\<lambda>a b. Priority a \<ge> Priority b) (formatters (registerAll rules))"
proof -
  have "sorted (map Priority (sort_key Priority (rev rules)))"
    by (rule sorted_sort_key)
  then have "sorted_wrt (\<lambda>a b. Priority a \<le> Priority b) (sort_key Priority (rev rules))"
    by (simp add: sorted_map)
  then show ?thesis
    by (simp add: registerAll_sort sorted_wrt_rev)
qed

lemma registerAll_stable:
  "filter (\<lambda>f. Priority f = p) (formatters (registerAll rules))
     = filter (\<lambda>f. Priority f = p) rules"
proof -
  have "filter (\<lambda>f. Priority f = p) (sort_key Priority (rev rules))
      = filter (\<lambda>f. Priority f = p) (rev rules)"
    by (rule sort_key_stable)
  then show ?thesis
    by (simp add: registerAll_sort rev_filter [symmetric])
qed

text \<open>The rule that the inner loop applies is the first of the list that claims the
  node's type.\<close>

lemma applyFirst_find:
  "applyFirst fs node cfg =
     (case List.find (\<lambda>f. CanFormat f (nodeType node)) fs of
        None \<Rightarrow> (node, None)
      | Some f \<Rightarrow> Format f node cfg)"
  by (induction fs) auto

lemma applyFirstRoot_find:
  "applyFirstRoot fs doc cfg =
     (case List.find (\<lambda>f. CanFormat f NodeDocument) fs of
        None \<Rightarrow> rootUnchanged doc cfg
      | Some f \<Rightarrow> FormatRoot f doc cfg)"
  by (induction fs) auto

lemma childrenAfter_unchanged: "childrenAfter (map OldChild [0..<length objs]) objs = objs"
proof -
  have "concat (map (\<lambda>i. if i < length objs then [objs ! i] else []) [0..<length objs])
      = concat (map (\<lambda>i. [objs ! i]) [0..<length objs])"
    by (rule arg_cong [where f = concat]) simp
  also have "\<dots> = map ((!) objs) [0..<length objs]"
    by (induction "[0..<length objs]") (simp_all add: concat_map_singleton)
  finally show ?thesis
    by (simp add: childrenAfter_def comp_def map_nth)
qed

lemma walkerChildren_same: "length olds = length doc \<Longrightarrow> walkerChildren doc olds = olds"
  by (simp add: walkerChildren_def)

text \<open>The rules of the engine that the pipeline builds: the six built-in rules in the
  order of their registration, twice.\<close>

lemma pipeline_rules:
  "formatters (RegisterDefaults formatter_New) =
     [HeadingFormatter, ParagraphFormatter, ListFormatter, CodeBlockFormatter,
      InlineFormatter, WhitespaceFormatter,
      HeadingFormatter, ParagraphFormatter, ListFormatter, CodeBlockFormatter,
      InlineFormatter, WhitespaceFormatter]"
  by (simp add: RegisterDefaults_def formatter_New_def Register_def HeadingFormatter_def
      ParagraphFormatter_def ListFormatter_def CodeBlockFormatter_def InlineFormatter_def
      WhitespaceFormatter_def)

text \<open>The rule that the pipeline's engine applies to a node, by the node's type.\<close>

lemma pipeline_applyFirst:
  "applyFirst (formatters (RegisterDefaults formatter_New)) node cfg =
     (case node of
        NDocument children \<Rightarrow> WhitespaceFormatter_Format node cfg
      | NHeading level t style \<Rightarrow> HeadingFormatter_Format node cfg
      | NParagraph t \<Rightarrow> ParagraphFormatter_Format node cfg
      | NList l \<Rightarrow> ListFormatter_Format node cfg
      | NListItem item \<Rightarrow> ListFormatter_Format node cfg
      | NCodeBlock language content fenced fence \<Rightarrow> CodeBlockFormatter_Format node cfg
      | NText content \<Rightarrow> InlineFormatter_Format node cfg)"
  unfolding pipeline_rules
  by (cases node)
    (simp_all add: HeadingFormatter_def ParagraphFormatter_def ListFormatter_def
      CodeBlockFormatter_def InlineFormatter_def WhitespaceFormatter_def del: HeadingFormatter_Format.simps
      ParagraphFormatter_Format.simps ListFormatter_Format.simps CodeBlockFormatter_Format.simps
      InlineFormatter_Format.simps WhitespaceFormatter_Format.simps)

text \<open>No built-in rule returns an error, so a pass of the pipeline's engine formats every
  top-level node.\<close>

lemma list_rule_no_error:
  "snd (formatList l cfg) = None"
  "snd (processListItems l cfg) = None"
  "snd (processItems items cfg) = None"
  "snd (processNestedLists item cfg) = None"
  "snd (processChildren children cfg) = None"
proof (induction l cfg and l cfg and items cfg and item cfg and children cfg
    rule: formatList_processListItems_processItems_processNestedLists_processChildren.induct)
  case (4 t marker children items cfg)
  then show ?case by (auto simp: Let_def split: prod.splits option.splits)
next
  case (7 childList children cfg)
  then show ?case by (auto split: prod.splits option.splits)
qed (auto split: prod.splits option.splits)

lemma formatList_no_error: "formatList l cfg = (l1, e) \<Longrightarrow> e = None"
  using list_rule_no_error(1) [of l cfg] by simp

lemma processChildren_no_error: "processChildren children cfg = (children1, e) \<Longrightarrow> e = None"
  using list_rule_no_error(5) [of children cfg] by simp

lemma builtin_rules_no_error:
  "snd (applyFirst (formatters (RegisterDefaults formatter_New)) node cfg) = None"
  unfolding pipeline_applyFirst
  by (cases node)
    (auto simp: Let_def formatListItem_def split: prod.splits PListItem.splits
      dest: formatList_no_error processChildren_no_error)

lemma pipeline_engine:
  "RegisterDefaults formatter_New =
     registerAll
       [HeadingFormatter, ParagraphFormatter, ListFormatter, CodeBlockFormatter,
        InlineFormatter, WhitespaceFormatter,
        HeadingFormatter, ParagraphFormatter, ListFormatter, CodeBlockFormatter,
        InlineFormatter, WhitespaceFormatter]"
  by (simp add: RegisterDefaults_def formatter_New_def registerAll_def)

lemma pipeline_applyFirstRoot:
  "applyFirstRoot (formatters (RegisterDefaults formatter_New)) doc cfg = rootUnchanged doc cfg"
  unfolding pipeline_rules
  by (simp add: HeadingFormatter_def ParagraphFormatter_def ListFormatter_def
      CodeBlockFormatter_def InlineFormatter_def WhitespaceFormatter_def)

lemma pipeline_Format:
  "Engine_Format (RegisterDefaults formatter_New) doc cfg
     = (map (\<lambda>n. fst (applyFirst (formatters (RegisterDefaults formatter_New)) n cfg)) doc, None)"
proof -
  have "childrenAfter (map OldChild [0..<length doc])
          (map (\<lambda>n. fst (applyFirst (formatters (RegisterDefaults formatter_New)) n cfg)) doc)
      = map (\<lambda>n. fst (applyFirst (formatters (RegisterDefaults formatter_New)) n cfg)) doc"
    using childrenAfter_unchanged
      [of "map (\<lambda>n. fst (applyFirst (formatters (RegisterDefaults formatter_New)) n cfg)) doc"]
    by simp
  then show ?thesis
    by (simp add: Engine_Format_def NewWalker_def pipeline_applyFirstRoot rootUnchanged_def
        walkerChildren_same formatNodes_ok builtin_rules_no_error)
qed

section \<open>C2: which nodes a pass visits\<close>

text \<open>
  C2, as stated, fails: the walker yields the root and its children only, not the
  nodes nested below them. With \<open>consistent_indentation: false\<close> the item of a
  top-level list keeps its text \<open>a  b\<close> through the pass, although the first rule
  that claims a list item, the list rule, turns this item's text into \<open>a b\<close>.
\<close>

theorem format_nested_item_counterexample:
  "NewWalker [NList (PList False [PListItem ''a  b'' ''*'' []] ''*'')]
     \<noteq> preorder (NDocument [NList (PList False [PListItem ''a  b'' ''*'' []] ''*'')])
   \<and> Engine_Format (RegisterDefaults formatter_New)
        [NList (PList False [PListItem ''a  b'' ''*'' []] ''*'')] looseListConfig
       = ([NList (PList False [PListItem ''a  b'' ''-'' []] ''-'')], None)
   \<and> applyFirst (formatters (RegisterDefaults formatter_New))
        (NListItem (PListItem ''a  b'' ''-'' [])) looseListConfig
       = (NListItem (PListItem ''a b'' ''-'' []), None)"
  by code_simp

text \<open>
  C2, amended: a single call of \<open>Format\<close> visits the root document and then each
  node that was a top-level node when the call began, in document order, and applies to
  each visited node exactly the first applicable rule in priority order: the engine's
  list holds the registered rules with the higher priority first and, among rules of
  equal priority, in the order of their registration, and the rule applied is the first
  of this list that claims the node's type. The nodes nested below a top-level node are
  not visited (a rule may descend by itself, as the list rule does into the items and
  the nested lists), nor is a node that the rule for the root adds to the document.
  Here no rule returns an error; \<open>olds\<close> are the root's former children and \<open>refs\<close>
  its \<open>Children\<close> slice after the rule for the root.
\<close>

theorem Engine_Format_top_level:
  assumes "fs = formatters (registerAll rules)"
    and "applyFirstRoot fs doc cfg = ((olds, refs), None)"
    and "\<forall>n\<in>set (walkerChildren doc olds). snd (applyFirst fs n cfg) = None"
  shows "sorted_wrt (\<lambda>a b. Priority a \<ge> Priority b) fs
    \<and> (\<forall>p. filter (\<lambda>f. Priority f = p) fs = filter (\<lambda>f. Priority f = p) rules)
    \<and> applyFirstRoot fs doc cfg =
          (case List.find (\<lambda>f. CanFormat f NodeDocument) fs of
             None \<Rightarrow> rootUnchanged doc cfg
           | Some f \<Rightarrow> FormatRoot f doc cfg)
    \<and> (\<forall>node. applyFirst fs node cfg =
          (case List.find (\<lambda>f. CanFormat f (nodeType node)) fs of
             None \<Rightarrow> (node, None)
           | Some f \<Rightarrow> Format f node cfg))
    \<and> Engine_Format (registerAll rules) doc cfg
          = (childrenAfter refs (map (\<lambda>n. fst (applyFirst fs n cfg)) (walkerChildren doc olds)),
             None)"
proof -
  have "Engine_Format (registerAll rules) doc cfg
      = (childrenAfter refs (map (\<lambda>n. fst (applyFirst fs n cfg)) (walkerChildren doc olds)), None)"
    using assms by (simp add: Engine_Format_def NewWalker_def formatNodes_ok)
  then show ?thesis
    using registerAll_sorted [of rules] registerAll_stable [of _ rules]
      applyFirst_find [of fs _ cfg] applyFirstRoot_find [of fs doc cfg] assms(1)
    by simp
qed

theorem Engine_Format_top_level_witness:
  "applyFirstRoot
      (formatters (registerAll [HeadingFormatter, ParagraphFormatter, ListFormatter,
         CodeBlockFormatter, InlineFormatter, WhitespaceFormatter, NewInlineFormatter,
         appendNoteRule]))
      [NHeading 9 '' A '' ''setext'', NParagraph ''p _q_''] Default
     = (([NHeading 9 '' A '' ''setext'', NParagraph ''p _q_''],
         [OldChild 1, NewChild (NText ''end _x_ '')]), None)
   \<and> list_all
       (\<lambda>n. snd (applyFirst
          (formatters (registerAll [HeadingFormatter, ParagraphFormatter, ListFormatter,
             CodeBlockFormatter, InlineFormatter, WhitespaceFormatter, NewInlineFormatter,
             appendNoteRule])) n Default) = None)
       (walkerChildren [NHeading 9 '' A '' ''setext'', NParagraph ''p _q_'']
          [NHeading 9 '' A '' ''setext'', NParagraph ''p _q_''])
   \<and> map Name
       (formatters (registerAll [HeadingFormatter, ParagraphFormatter, ListFormatter,
          CodeBlockFormatter, InlineFormatter, WhitespaceFormatter, NewInlineFormatter,
          appendNoteRule]))
     = [''inline'', ''append-note'', [], [], [], [], [], []]
   \<and> Engine_Format
       (registerAll [HeadingFormatter, ParagraphFormatter, ListFormatter,
          CodeBlockFormatter, InlineFormatter, WhitespaceFormatter, NewInlineFormatter,
          appendNoteRule])
       [NHeading 9 '' A '' ''setext'', NParagraph ''p _q_''] Default
     = ([NParagraph ''p *q*'', NText ''end _x_ ''], None)"
proof -
  define rules where "rules = [HeadingFormatter, ParagraphFormatter, ListFormatter,
    CodeBlockFormatter, InlineFormatter, WhitespaceFormatter, NewInlineFormatter, appendNoteRule]"
  define doc where "doc = [NHeading 9 '' A '' ''setext'', NParagraph ''p _q_'']"
  have h2: "applyFirstRoot (formatters (registerAll rules)) doc Default
      = ((doc, [OldChild 1, NewChild (NText ''end _x_ '')]), None)"
    unfolding rules_def doc_def by code_simp
  have h3: "\<forall>n\<in>set (walkerChildren doc doc).
      snd (applyFirst (formatters (registerAll rules)) n Default) = None"
    unfolding rules_def doc_def by code_simp
  have names: "map Name (formatters (registerAll rules))
      = [''inline'', ''append-note'', [], [], [], [], [], []]"
    unfolding rules_def by code_simp
  have v: "childrenAfter [OldChild 1, NewChild (NText ''end _x_ '')]
        (map (\<lambda>n. fst (applyFirst (formatters (registerAll rules)) n Default))
           (walkerChildren doc doc))
      = [NParagraph ''p *q*'', NText ''end _x_ '']"
    unfolding rules_def doc_def by code_simp
  from Engine_Format_top_level [OF refl h2 h3] v
  have "Engine_Format (registerAll rules) doc Default
      = ([NParagraph ''p *q*'', NText ''end _x_ ''], None)"
    by simp
  then show ?thesis
    using h2 h3 names unfolding rules_def doc_def by (simp add: list_all_iff)
qed

section \<open>C3: links in the reflow of the paragraph rule\<close>

text \<open>
  C3 holds for the renderer's tokens and fails for the paragraph rule, whose
  \<open>wrapText\<close> splits the text at white space only: for the paragraph \<open>[a](b c)\<close>
  and the width 5 the rule breaks the line inside the link, and the pipeline's output
  keeps the break (the renderer repairs breaks in a label only).
\<close>

theorem paragraph_rule_breaks_link:
  "strings_Fields ''[a](b c)'' = [''[a](b'', ''c)'']
   \<and> tokenizeWithLinks ''[a](b c)'' = [''[a](b c)'']
   \<and> ParagraphFormatter_Format (NParagraph ''[a](b c)'') (Default\<lparr>LineWidth := 5\<rparr>)
       = (NParagraph (''[a](b'' @ [NL] @ ''c)''), None)
   \<and> formatMarkdownContent BasicParser_Parse ''[a](b c)'' (Default\<lparr>LineWidth := 5\<rparr>)
       = Inr (''[a](b'' @ [NL] @ ''c)'' @ [NL, NL])"
  by code_simp

section \<open>C4: the whitespace rule and trailing spaces\<close>

text \<open>
  C4 fails on the code: with trim-trailing-spaces enabled, a Text node goes to the
  inline rule, which is before the whitespace rule in the engine's list, and only the
  first rule that claims a node is applied. The text \<open>a \<close> keeps its trailing space
  through the pass, although the whitespace rule would remove it.
\<close>

theorem whitespace_rule_not_reached:
  "TrimTrailingSpaces (Whitespace Default)
   \<and> Engine_Format (RegisterDefaults formatter_New) [NText ''a ''] Default = ([NText ''a ''], None)
   \<and> WhitespaceFormatter_Format (NText ''a '') Default = (NText ''a'', None)"
  by code_simp

section \<open>C5: the width of the lines of a rendered paragraph\<close>

lemma spaceWidth_NL: "spaceWidth (NL # s) = 1"
  by (simp add: spaceWidth_def spaceRunes_def)

lemma fieldsLoop_no_NL:
  "NL \<notin> set cur \<Longrightarrow> t \<in> set (fieldsLoop cur s) \<Longrightarrow> NL \<notin> set t"
proof (induction cur s arbitrary: t rule: fieldsLoop.induct)
  case (1 cur)
  then show ?case by (auto split: if_splits)
next
  case (2 cur c cs)
  show ?case
  proof (cases "spaceWidth (c # cs) > 0")
    case True
    with 2 show ?thesis by (auto split: if_splits)
  next
    case False
    then have "c \<noteq> NL" using spaceWidth_NL [of cs] by auto
    with 2 False show ?thesis by auto
  qed
qed

lemma fields_no_NL: "t \<in> set (strings_Fields s) \<Longrightarrow> NL \<notin> set t"
  unfolding strings_Fields_def using fieldsLoop_no_NL [of "[]" t s] by simp

lemma no_links_findAll: "\<not> containsMarkdownLinks s \<Longrightarrow> findAllLinks pos s = []"
  by (induction s arbitrary: pos) (auto split: option.splits)

lemma no_links_tokenize:
  "\<not> containsMarkdownLinks s \<Longrightarrow> tokenizeWithLinks s = strings_Fields s"
  by (simp add: tokenizeWithLinks_def no_links_findAll)

lemma no_links_replace:
  assumes "\<And>prev t. matchLink t = None \<Longrightarrow> m prev t = None"
  shows "\<not> containsMarkdownLinks s \<Longrightarrow> replaceAllFunc m prev s = s"
  using assms by (induction s arbitrary: prev) (auto split: option.splits)

lemma no_links_fix: "\<not> containsMarkdownLinks s \<Longrightarrow> fixBrokenLinks s = s"
  by (simp add: fixBrokenLinks_def Let_def no_links_replace brokenLinkMatch_def
      multiBreakMatch_def)

lemma split_append_NL: "strings_Split (s @ NL # t) = strings_Split s @ strings_Split t"
proof (induction s)
  case Nil
  then show ?case by simp
next
  case (Cons c cs)
  have "strings_Split cs \<noteq> []" by (rule split_nonempty)
  with Cons show ?case by (cases "strings_Split cs") auto
qed

lemma wrapLoop_nonempty: "toks \<noteq> [] \<Longrightarrow> wrapLoop W toks lines cur \<noteq> []"
proof (induction toks arbitrary: lines cur)
  case Nil
  then show ?case by simp
next
  case (Cons token rest)
  show ?case
  proof (cases "rest = []")
    case True
    then show ?thesis by (simp add: Let_def split: prod.splits)
  next
    case False
    then show ?thesis using Cons.IH by (simp add: Let_def split: prod.splits)
  qed
qed

text \<open>
  An invariant of the loop: a property \<open>P\<close> that every token has, and that a line
  keeps when a token is appended within the width, holds for every line produced.
\<close>

lemma wrapLoop_inv:
  assumes "\<And>l. l \<in> set lines \<Longrightarrow> P l"
    and "cur = [] \<or> P cur"
    and "\<And>t. t \<in> set toks \<Longrightarrow> P t"
    and "\<And>l t. l \<noteq> [] \<Longrightarrow> P l \<Longrightarrow> t \<in> set toks
            \<Longrightarrow> int (length l) + 1 + int (length t) \<le> W \<Longrightarrow> P (l @ '' '' @ t)"
  shows "l \<in> set (wrapLoop W toks lines cur) \<Longrightarrow> P l"
  using assms
proof (induction toks arbitrary: lines cur)
  case Nil
  then show ?case by simp
next
  case (Cons token rest)
  define brk where "brk = (length cur > 0 \<and> int (length cur) + 1 + int (length token) > W)"
  define lines1 where "lines1 = (if brk then lines @ [cur] else lines)"
  define cur1 where "cur1 = (if brk then [] else cur)"
  define cur2 where "cur2 = (if length cur1 > 0 then cur1 @ '' '' else cur1) @ token"
  define lines2 where "lines2 = (if rest = [] then lines1 @ [cur2] else lines1)"
  have step: "wrapLoop W (token # rest) lines cur = wrapLoop W rest lines2 cur2"
    by (simp add: Let_def brk_def lines1_def cur1_def cur2_def lines2_def)
  have Pcur: "cur \<noteq> [] \<Longrightarrow> P cur" using Cons.prems(3) by auto
  have P1: "\<And>l. l \<in> set lines1 \<Longrightarrow> P l"
    using Cons.prems(2) Pcur by (auto simp: lines1_def brk_def split: if_splits)
  have P2: "P cur2"
  proof (cases "cur1 = []")
    case True
    then show ?thesis using Cons.prems(4) [of token] by (simp add: cur2_def)
  next
    case False
    then have "cur1 = cur" "\<not> brk" "cur \<noteq> []" by (auto simp: cur1_def split: if_splits)
    then have "int (length cur) + 1 + int (length token) \<le> W" by (auto simp: brk_def)
    then have "P (cur @ '' '' @ token)"
      using Cons.prems(5) [of cur token] Pcur \<open>cur \<noteq> []\<close> by simp
    then show ?thesis using \<open>cur1 = cur\<close> \<open>cur \<noteq> []\<close> by (simp add: cur2_def)
  qed
  have P3: "\<And>l. l \<in> set lines2 \<Longrightarrow> P l"
    using P1 P2 by (auto simp: lines2_def split: if_splits)
  show ?case
  proof (rule Cons.IH [of lines2 cur2])
    show "l \<in> set (wrapLoop W rest lines2 cur2)" using Cons.prems(1) by (simp only: step)
    show "\<And>l. l \<in> set lines2 \<Longrightarrow> P l" by (rule P3)
    show "cur2 = [] \<or> P cur2" using P2 by simp
    show "\<And>t. t \<in> set rest \<Longrightarrow> P t" using Cons.prems(4) by simp
    show "\<And>l t. l \<noteq> [] \<Longrightarrow> P l \<Longrightarrow> t \<in> set rest
            \<Longrightarrow> int (length l) + 1 + int (length t) \<le> W \<Longrightarrow> P (l @ '' '' @ t)"
      using Cons.prems(5) by simp
  qed
qed

lemma wrapLoop_width:
  assumes "l \<in> set (wrapLoop W toks [] [])"
  shows "int (length l) \<le> W \<or> l \<in> set toks"
  by (rule wrapLoop_inv [where P = "\<lambda>l. int (length l) \<le> W \<or> l \<in> set toks", OF _ _ _ _ assms])
    auto

lemma wrapLoop_no_NL:
  assumes "l \<in> set (wrapLoop W toks [] [])" and "\<And>t. t \<in> set toks \<Longrightarrow> NL \<notin> set t"
  shows "NL \<notin> set l"
  by (rule wrapLoop_inv [where P = "\<lambda>l. NL \<notin> set l", OF _ _ _ _ assms(1)])
    (use assms(2) in auto)

text \<open>
  C5, as stated, fails: a paragraph of four spaces has no link construct, and with the
  width 3 it is rendered as it is: the first line of the rendered paragraph has the
  length 4 and is no token (the text has no token at all, and \<open>wrapText\<close> then
  returns the text unchanged).
\<close>

theorem paragraph_width_counterexample:
  "\<not> containsMarkdownLinks ''    ''
   \<and> renderNode (Default\<lparr>LineWidth := 3\<rparr>) (NParagraph ''    '') 0 [] = Inr (''    '' @ [NL, NL])
   \<and> strings_Split (''    '' @ [NL, NL]) = [''    '', [], []]
   \<and> int (length ''    '') > 3
   \<and> tokenizeWithLinks ''    '' = []"
  by code_simp

text \<open>
  C5, amended: for every paragraph whose text contains no link construct and has at
  least one token (a byte that is not white space), rendered with a line width
  \<open>W > 0\<close>, every line of the rendered paragraph has a length of at most \<open>W\<close> or is
  one token of the text by itself.
\<close>

theorem paragraph_width_bound:
  assumes "LineWidth cfg > 0"
    and "\<not> containsMarkdownLinks text"
    and "strings_Fields text \<noteq> []"
  shows "\<exists>rendered. renderNode cfg (NParagraph text) depth [] = Inr rendered
           \<and> (\<forall>line\<in>set (strings_Split rendered).
                 int (length line) \<le> LineWidth cfg \<or> line \<in> set (strings_Fields text))"
proof -
  define W where "W = LineWidth cfg"
  define ls where "ls = wrapLoop W (strings_Fields text) [] []"
  have wrap: "wrapText text W = strings_Join ls [NL]"
    using assms by (simp add: wrapText_def no_links_tokenize Let_def ls_def W_def)
  have r: "renderNode cfg (NParagraph text) depth [] = Inr (strings_Join ls [NL] @ [NL, NL])"
    using assms wrap by (simp add: renderParagraph_def no_links_fix Let_def W_def)
  have ne: "ls \<noteq> []" unfolding ls_def using assms(3) by (rule wrapLoop_nonempty)
  have nonl: "\<forall>l\<in>set ls. NL \<notin> set l"
    unfolding ls_def using wrapLoop_no_NL fields_no_NL by blast
  have "strings_Split (strings_Join ls [NL] @ [NL, NL]) = ls @ [[], []]"
    using split_append_NL [of "strings_Join ls [NL]" "[NL]"] split_join [OF ne nonl] by simp
  moreover have "\<forall>l\<in>set ls. int (length l) \<le> W \<or> l \<in> set (strings_Fields text)"
    unfolding ls_def using wrapLoop_width by blast
  ultimately show ?thesis using r assms(1) by (auto simp: W_def)
qed

theorem paragraph_width_bound_witness:
  "LineWidth (Default\<lparr>LineWidth := 7\<rparr>) > 0
   \<and> \<not> containsMarkdownLinks ''aaa bbb ccccccccc dd e''
   \<and> strings_Fields ''aaa bbb ccccccccc dd e'' \<noteq> []
   \<and> (\<exists>rendered.
         renderNode (Default\<lparr>LineWidth := 7\<rparr>) (NParagraph ''aaa bbb ccccccccc dd e'') 0 []
           = Inr rendered
         \<and> list_all (\<lambda>line. int (length line) \<le> 7
                   \<or> line \<in> set (strings_Fields ''aaa bbb ccccccccc dd e''))
             (strings_Split rendered))"
proof -
  have h1: "LineWidth (Default\<lparr>LineWidth := 7\<rparr>) > 0" by simp
  have h2: "\<not> containsMarkdownLinks ''aaa bbb ccccccccc dd e''" by code_simp
  have h3: "strings_Fields ''aaa bbb ccccccccc dd e'' \<noteq> []" by code_simp
  show ?thesis
    using h1 h2 h3 paragraph_width_bound [OF h1 h2 h3, of 0] by (auto simp: list_all_iff)
qed

section \<open>C6: the heading rule clamps the level\<close>

text \<open>
  C6: with level normalization enabled, the heading rule turns a heading of level
  \<open>L\<close> into one of level \<open>min(6, max(1, L))\<close>, which lies between 1 and 6 (it also
  trims the text and sets the style).
\<close>

theorem heading_level_clamp:
  assumes "NormalizeLevels (Heading cfg)"
  shows "HeadingFormatter_Format (NHeading level text style) cfg
           = (NHeading (min 6 (max 1 level)) (strings_TrimSpace text)
                (if Style (Heading cfg) = ''atx'' then ''atx''
                 else if Style (Heading cfg) = ''setext''
                 then (if level \<le> 2 then ''setext'' else ''atx'')
                 else style), None)
         \<and> 1 \<le> min 6 (max 1 level) \<and> min 6 (max 1 level) \<le> 6"
  using assms
  by (auto simp: Let_def MaxHeadingLevel_def MinHeadingLevel_def AtxHeadingStyle_def
      SetextHeadingStyle_def SetextMaxLevel_def)

theorem heading_level_clamp_witness:
  "NormalizeLevels (Heading Default)
   \<and> HeadingFormatter_Format (NHeading 9 ''Deep'' ''atx'') Default = (NHeading 6 ''Deep'' ''atx'', None)
   \<and> HeadingFormatter_Format (NHeading 0 ''Top'' ''atx'') Default = (NHeading 1 ''Top'' ''atx'', None)"
  using heading_level_clamp [of Default 9 "''Deep''" "''atx''"]
    heading_level_clamp [of Default 0 "''Top''" "''atx''"]
  by code_simp

section \<open>C7: blank lines are collapsed\<close>

lemma normalizeLoop_acc:
  "normalizeLoop K lines result c = result @ normalizeLoop K lines [] c"
proof (induction lines arbitrary: result c)
  case Nil
  then show ?case by simp
next
  case (Cons line lines)
  show ?case
    using Cons.IH [of "result @ [line]"] Cons.IH [of "[line]"] Cons.IH [of result]
    by simp
qed

lemma normalizeLoop_subset:
  "set (normalizeLoop K lines [] c) \<subseteq> set lines"
proof (induction lines arbitrary: c)
  case Nil
  then show ?case by simp
next
  case (Cons line lines)
  show ?case
    using Cons.IH [of "c + 1"] Cons.IH [of 0] normalizeLoop_acc [of K lines "[line]"]
    by auto
qed

lemma normalizeLoop_run:
  "r \<le> nat K \<Longrightarrow> int r \<le> c \<Longrightarrow> longestBlankRun r (normalizeLoop K lines [] c) \<le> nat K"
proof (induction lines arbitrary: r c)
  case Nil
  then show ?case by simp
next
  case (Cons line lines)
  show ?case
  proof (cases "strings_TrimSpace line = []")
    case blank: True
    show ?thesis
    proof (cases "c + 1 \<le> K")
      case True
      have "longestBlankRun (r + 1) (normalizeLoop K lines [] (c + 1)) \<le> nat K"
        using Cons.prems True by (intro Cons.IH) auto
      then show ?thesis
        using blank True normalizeLoop_acc [of K lines "[line]" "c + 1"] by simp
    next
      case False
      have "longestBlankRun r (normalizeLoop K lines [] (c + 1)) \<le> nat K"
        using Cons.prems by (intro Cons.IH) auto
      then show ?thesis using blank False by simp
    qed
  next
    case False
    have "longestBlankRun 0 (normalizeLoop K lines [] 0) \<le> nat K"
      by (intro Cons.IH) auto
    then show ?thesis
      using False Cons.prems normalizeLoop_acc [of K lines "[line]" 0] by simp
  qed
qed

lemma longestBlankRun_ge: "r \<le> longestBlankRun r ls"
proof (induction ls arbitrary: r)
  case Nil
  then show ?case by simp
next
  case (Cons l ls)
  show ?case using Cons [of "r + 1"] by auto
qed

lemma longestBlankRun_butlast: "longestBlankRun r (butlast ls) \<le> longestBlankRun r ls"
proof (induction ls arbitrary: r)
  case Nil
  then show ?case by simp
next
  case (Cons l ls)
  show ?case
  proof (cases "ls = []")
    case True
    then show ?thesis by simp
  next
    case False
    then show ?thesis using Cons [of "r + 1"] Cons [of 0] by auto
  qed
qed

text \<open>The lines of the collapsed text, and of the collapsed text with a line break
  appended, when \<open>ls\<close> are the lines the loop has kept.\<close>

lemma outputLines_join:
  assumes "\<forall>l\<in>set ls. NL \<notin> set l"
  shows "longestBlankRun 0 (outputLines (strings_Join ls [NL])) \<le> longestBlankRun 0 ls"
proof (cases "ls = []")
  case True
  then show ?thesis by (simp add: outputLines_def)
next
  case False
  then have "strings_Split (strings_Join ls [NL]) = ls"
    using assms by (simp add: split_join)
  then show ?thesis
    using longestBlankRun_butlast [of 0 ls] by (simp add: outputLines_def)
qed

lemma outputLines_join_NL:
  assumes "\<forall>l\<in>set ls. NL \<notin> set l" and "ls \<noteq> []"
  shows "outputLines (strings_Join ls [NL] @ [NL]) = ls"
proof -
  have "strings_Split (strings_Join ls [NL] @ [NL]) = ls @ [[]]"
    using split_append_NL [of "strings_Join ls [NL]" "[]"] split_join [OF assms(2,1)] by simp
  then show ?thesis by (simp add: outputLines_def)
qed

lemma normalizeBlankLines_lines:
  assumes "0 \<le> K"
  shows "\<exists>ls. normalizeBlankLines text K = strings_Join ls [NL]
          \<and> (\<forall>l\<in>set ls. NL \<notin> set l) \<and> int (longestBlankRun 0 ls) \<le> K"
proof -
  define result where "result = normalizeLoop K (strings_Split text) [] 0"
  have out: "normalizeBlankLines text K = strings_Join result [NL]"
    using assms by (simp add: normalizeBlankLines_def result_def)
  have run: "longestBlankRun 0 result \<le> nat K"
    unfolding result_def by (rule normalizeLoop_run) (use assms in auto)
  have noNL: "\<forall>l\<in>set result. NL \<notin> set l"
    using normalizeLoop_subset [of K "strings_Split text" 0] split_no_NL
    unfolding result_def by auto
  show ?thesis using out run noNL assms by auto
qed

lemma blank_line_alone: "longestBlankRun 0 (outputLines [NL]) = 1"
  by code_simp

text \<open>
  C7, as stated, fails for \<open>Render\<close>, where the post-processing runs: after the
  collapse, \<open>Render\<close> appends a line break when ensure-final-newline is set and the
  text does not end in one. With \<open>K = 0\<close> the empty document is rendered as one line
  break, which is one blank line; with \<open>K = -1\<close> the buffer \<open>a\<close> is returned as
  \<open>a\<close> followed by a line break, not unchanged.
\<close>

theorem Render_final_newline_counterexample:
  "renderDocument (blankLinesConfig 0) [] 0 [] = Inr []
   \<and> map_sum id fst (Render renderer_New [] (blankLinesConfig 0)) = Inr [NL]
   \<and> int (longestBlankRun 0 (outputLines [NL])) > 0
   \<and> renderDocument (blankLinesConfig (- 1)) [NText ''a''] 0 [] = Inr ''a''
   \<and> map_sum id fst (Render renderer_New [NText ''a''] (blankLinesConfig (- 1))) = Inr (''a'' @ [NL])"
  by code_simp

text \<open>
  C7, amended: \<open>Render\<close> returns the serialized buffer (which it leaves in the
  renderer) after the collapse of blank lines, followed by one line break when
  ensure-final-newline is set and the collapsed text does not end in a line break. For
  a maximum \<open>K\<close> that is not negative, no run of consecutive blank lines of the
  returned text is longer than \<open>K\<close>, except that with \<open>K = 0\<close> the returned text can
  be the single line break appended to an empty collapsed text. For a negative \<open>K\<close>
  the collapse leaves the buffer unchanged, so the returned text is the buffer, followed
  by that line break when it applies.
\<close>

theorem Render_blank_lines:
  assumes "Render r doc cfg = Inr (rendered, r1)"
  shows "renderDocument cfg doc 0 [] = Inr (output_buf r1)
    \<and> rendered =
        (if EnsureFinalNewline (Whitespace cfg)
            \<and> \<not> strings_HasSuffix
                  (normalizeBlankLines (output_buf r1) (MaxBlankLines (Whitespace cfg))) [NL]
         then normalizeBlankLines (output_buf r1) (MaxBlankLines (Whitespace cfg)) @ [NL]
         else normalizeBlankLines (output_buf r1) (MaxBlankLines (Whitespace cfg)))
    \<and> (0 \<le> MaxBlankLines (Whitespace cfg) \<longrightarrow>
          int (longestBlankRun 0 (outputLines rendered)) \<le> MaxBlankLines (Whitespace cfg)
          \<or> MaxBlankLines (Whitespace cfg) = 0 \<and> rendered = [NL])
    \<and> (MaxBlankLines (Whitespace cfg) < 0 \<longrightarrow>
          rendered =
            (if EnsureFinalNewline (Whitespace cfg) \<and> \<not> strings_HasSuffix (output_buf r1) [NL]
             then output_buf r1 @ [NL] else output_buf r1))"
proof -
  define K where "K = MaxBlankLines (Whitespace cfg)"
  define buf where "buf = output_buf r1"
  define nb where "nb = normalizeBlankLines buf K"
  have doc: "renderDocument cfg doc 0 [] = Inr buf"
    using assms by (auto simp: Render_def Let_def buf_def split: sum.splits)
  have rendered: "rendered =
      (if EnsureFinalNewline (Whitespace cfg) \<and> \<not> strings_HasSuffix nb [NL]
       then nb @ [NL] else nb)"
    using assms by (auto simp: Render_def Let_def buf_def nb_def K_def split: sum.splits)
  have neg: "nb = buf" if "K < 0"
    using that by (simp add: nb_def normalizeBlankLines_def)
  have run: "int (longestBlankRun 0 (outputLines rendered)) \<le> K \<or> K = 0 \<and> rendered = [NL]"
    if K: "0 \<le> K"
  proof -
    obtain ls where ls: "nb = strings_Join ls [NL]" "\<forall>l\<in>set ls. NL \<notin> set l"
        "int (longestBlankRun 0 ls) \<le> K"
      using normalizeBlankLines_lines [OF K, of buf] unfolding nb_def by blast
    show ?thesis
    proof (cases "EnsureFinalNewline (Whitespace cfg) \<and> \<not> strings_HasSuffix nb [NL]")
      case False
      then have "rendered = nb" using rendered by simp
      then show ?thesis using outputLines_join [OF ls(2)] ls(1,3) by simp
    next
      case True
      then have r: "rendered = nb @ [NL]" using rendered by simp
      show ?thesis
      proof (cases "nb = []")
        case True
        then show ?thesis using r K blank_line_alone by (cases "K = 0") auto
      next
        case False
        then have "ls \<noteq> []" using ls(1) by auto
        then show ?thesis using outputLines_join_NL [OF ls(2)] ls(1,3) r by simp
      qed
    qed
  qed
  show ?thesis
    using doc rendered neg run unfolding K_def buf_def nb_def by simp
qed

theorem Render_blank_lines_witness:
  "Render renderer_New [NParagraph ''a'', NText [NL, NL, NL], NParagraph ''b''] (blankLinesConfig 1)
     = Inr (''a'' @ [NL, NL] @ ''b'' @ [NL],
            \<lparr>output_buf = ''a'' @ [NL, NL, NL, NL, NL] @ ''b'' @ [NL, NL],
             config = Some (blankLinesConfig 1)\<rparr>)
   \<and> int (longestBlankRun 0 (outputLines (''a'' @ [NL, NL] @ ''b'' @ [NL]))) \<le> 1
   \<and> Render renderer_New [NParagraph ''a'', NText [NL, NL, NL], NParagraph ''b'']
       (blankLinesConfig (- 1))
     = Inr (''a'' @ [NL, NL, NL, NL, NL] @ ''b'' @ [NL, NL],
            \<lparr>output_buf = ''a'' @ [NL, NL, NL, NL, NL] @ ''b'' @ [NL, NL],
             config = Some (blankLinesConfig (- 1))\<rparr>)"
proof -
  have h1: "Render renderer_New [NParagraph ''a'', NText [NL, NL, NL], NParagraph ''b'']
      (blankLinesConfig 1)
     = Inr (''a'' @ [NL, NL] @ ''b'' @ [NL],
            \<lparr>output_buf = ''a'' @ [NL, NL, NL, NL, NL] @ ''b'' @ [NL, NL],
             config = Some (blankLinesConfig 1)\<rparr>)"
    by code_simp
  have h2: "Render renderer_New [NParagraph ''a'', NText [NL, NL, NL], NParagraph ''b'']
      (blankLinesConfig (- 1))
     = Inr (''a'' @ [NL, NL, NL, NL, NL] @ ''b'' @ [NL, NL],
            \<lparr>output_buf = ''a'' @ [NL, NL, NL, NL, NL] @ ''b'' @ [NL, NL],
             config = Some (blankLinesConfig (- 1))\<rparr>)"
    by code_simp
  have k: "MaxBlankLines (Whitespace (blankLinesConfig 1)) = 1"
    by (simp add: blankLinesConfig_def)
  from Render_blank_lines [OF h1, THEN conjunct2, THEN conjunct2, THEN conjunct1] k
  have "int (longestBlankRun 0 (outputLines (''a'' @ [NL, NL] @ ''b'' @ [NL]))) \<le> 1"
    by simp
  then show ?thesis using h1 h2 by simp
qed

section \<open>C8: a failing rule aborts the pass and the pipeline\<close>

text \<open>
  C8: when the rule applied to the root returns an error, \<open>Format\<close> returns it and
  no child has been visited; when the rule applied to a node of the walker returns an
  error, after the rules for the root and for the nodes before it have returned nil,
  \<open>Format\<close> returns that error, the nodes before it are formatted and the nodes after
  it are as they were. In both cases the rest of the pipeline, given this engine, returns
  the error, wrapped, and renders nothing. \<open>formatMarkdownContent\<close> itself runs this
  on the engine of the built-in rules, none of which returns an error: there the pass
  formats every top-level node, and what is rendered is the tree of the complete pass.
\<close>

theorem format_failure_aborts:
  "(applyFirstRoot (formatters e) doc cfg = ((olds, refs), Some err) \<longrightarrow>
      Engine_Format e doc cfg = (childrenAfter refs (walkerChildren doc olds), Some err)
      \<and> formatAndRender e r doc cfg = Inl (Err (''failed to format document: '' @ err)))
   \<and> (applyFirstRoot (formatters e) doc cfg = ((olds, refs), None)
      \<and> walkerChildren doc olds = before @ node # after
      \<and> (\<forall>n\<in>set before. snd (applyFirst (formatters e) n cfg) = None)
      \<and> applyFirst (formatters e) node cfg = (node1, Some err) \<longrightarrow>
      Engine_Format e doc cfg
        = (childrenAfter refs
             (map (\<lambda>n. fst (applyFirst (formatters e) n cfg)) before @ node1 # after),
           Some err)
      \<and> formatAndRender e r doc cfg = Inl (Err (''failed to format document: '' @ err)))
   \<and> (parse content = Inr doc \<longrightarrow>
      formatMarkdownContent parse content cfg
        = formatAndRender (RegisterDefaults formatter_New) renderer_New doc cfg
      \<and> formatMarkdownContent parse content cfg
        = (case Render renderer_New
                  (map (\<lambda>n. fst (applyFirst (formatters (RegisterDefaults formatter_New)) n cfg))
                     doc) cfg of
             Inl (Err err) \<Rightarrow> Inl (Err (''failed to render document: '' @ err))
           | Inl (Panic p) \<Rightarrow> Inl (Panic p)
           | Inr (formatted, r) \<Rightarrow> Inr formatted))"
proof (intro conjI impI)
  assume "applyFirstRoot (formatters e) doc cfg = ((olds, refs), Some err)"
  then show "Engine_Format e doc cfg = (childrenAfter refs (walkerChildren doc olds), Some err)"
    and "formatAndRender e r doc cfg = Inl (Err (''failed to format document: '' @ err))"
    by (simp_all add: Engine_Format_def NewWalker_def formatAndRender_def)
next
  assume "applyFirstRoot (formatters e) doc cfg = ((olds, refs), None)
      \<and> walkerChildren doc olds = before @ node # after
      \<and> (\<forall>n\<in>set before. snd (applyFirst (formatters e) n cfg) = None)
      \<and> applyFirst (formatters e) node cfg = (node1, Some err)"
  then show "Engine_Format e doc cfg
        = (childrenAfter refs
             (map (\<lambda>n. fst (applyFirst (formatters e) n cfg)) before @ node1 # after),
           Some err)"
    and "formatAndRender e r doc cfg = Inl (Err (''failed to format document: '' @ err))"
    by (simp_all add: Engine_Format_def NewWalker_def formatNodes_abort formatAndRender_def)
next
  assume "parse content = Inr doc"
  then show "formatMarkdownContent parse content cfg
        = formatAndRender (RegisterDefaults formatter_New) renderer_New doc cfg"
    and "formatMarkdownContent parse content cfg
        = (case Render renderer_New
                  (map (\<lambda>n. fst (applyFirst (formatters (RegisterDefaults formatter_New)) n cfg))
                     doc) cfg of
             Inl (Err err) \<Rightarrow> Inl (Err (''failed to render document: '' @ err))
           | Inl (Panic p) \<Rightarrow> Inl (Panic p)
           | Inr (formatted, r) \<Rightarrow> Inr formatted)"
    by (simp_all add: formatMarkdownContent_def formatAndRender_def pipeline_Format)
qed

theorem format_failure_aborts_witness:
  "Engine_Format (Register (RegisterDefaults formatter_New) rejectAllRule)
      [NHeading 9 ''A'' ''atx''] Default
     = ([NHeading 9 ''A'' ''atx''], Some ''rejected'')
   \<and> formatAndRender (Register (RegisterDefaults formatter_New) rejectAllRule) renderer_New
        [NHeading 9 ''A'' ''atx''] Default
       = Inl (Err ''failed to format document: rejected'')
   \<and> Engine_Format (Register (RegisterDefaults formatter_New) strictTextRule)
        [NHeading 9 ''A'' ''atx'', NText ''x'', NHeading 9 ''B'' ''atx''] Default
       = ([NHeading 6 ''A'' ''atx'', NText ''x'', NHeading 9 ''B'' ''atx''],
          Some ''raw text is not allowed'')
   \<and> formatAndRender (Register (RegisterDefaults formatter_New) strictTextRule) renderer_New
        [NHeading 9 ''A'' ''atx'', NText ''x'', NHeading 9 ''B'' ''atx''] Default
       = Inl (Err ''failed to format document: raw text is not allowed'')
   \<and> formatMarkdownContent BasicParser_Parse ''a  b'' Default
       = formatAndRender (RegisterDefaults formatter_New) renderer_New [NParagraph ''a  b''] Default
   \<and> formatMarkdownContent BasicParser_Parse ''a  b'' Default = Inr (''a b'' @ [NL, NL])"
proof -
  define e1 where "e1 = Register (RegisterDefaults formatter_New) rejectAllRule"
  define e2 where "e2 = Register (RegisterDefaults formatter_New) strictTextRule"
  define docA where "docA = [NHeading 9 ''A'' ''atx'']"
  define docB where "docB = [NHeading 9 ''A'' ''atx'', NText ''x'', NHeading 9 ''B'' ''atx'']"
  have a: "applyFirstRoot (formatters e1) docA Default
      = ((docA, [OldChild 0]), Some ''rejected'')"
    unfolding e1_def docA_def by code_simp
  have a1: "childrenAfter [OldChild 0] (walkerChildren docA docA) = docA"
    unfolding docA_def by code_simp
  have b1: "applyFirstRoot (formatters e2) docB Default
      = ((docB, [OldChild 0, OldChild 1, OldChild 2]), None)"
    unfolding e2_def docB_def by code_simp
  have b0: "walkerChildren docB docB = [NHeading 9 ''A'' ''atx''] @ NText ''x'' # [NHeading 9 ''B'' ''atx'']"
    unfolding docB_def by code_simp
  have b2: "\<forall>n\<in>set [NHeading 9 ''A'' ''atx'']. snd (applyFirst (formatters e2) n Default) = None"
    unfolding e2_def by code_simp
  have b3: "applyFirst (formatters e2) (NText ''x'') Default
      = (NText ''x'', Some ''raw text is not allowed'')"
    unfolding e2_def by code_simp
  have b4: "childrenAfter [OldChild 0, OldChild 1, OldChild 2]
        (map (\<lambda>n. fst (applyFirst (formatters e2) n Default)) [NHeading 9 ''A'' ''atx'']
           @ NText ''x'' # [NHeading 9 ''B'' ''atx''])
      = [NHeading 6 ''A'' ''atx'', NText ''x'', NHeading 9 ''B'' ''atx'']"
    unfolding e2_def by code_simp
  have p: "BasicParser_Parse ''a  b'' = Inr [NParagraph ''a  b'']"
    by (simp add: BasicParser_Parse_def)
  have p1: "(case Render renderer_New
                  (map (\<lambda>n. fst (applyFirst (formatters (RegisterDefaults formatter_New)) n Default))
                     [NParagraph ''a  b'']) Default of
             Inl (Err err) \<Rightarrow> Inl (Err (''failed to render document: '' @ err))
           | Inl (Panic p) \<Rightarrow> Inl (Panic p)
           | Inr (formatted, r) \<Rightarrow> Inr formatted) = Inr (''a b'' @ [NL, NL])"
    by code_simp
  from a a1 format_failure_aborts [where e = e1 and doc = docA and cfg = Default
      and olds = docA and refs = "[OldChild 0]" and err = "''rejected''" and r = renderer_New]
  have c1: "Engine_Format e1 docA Default = (docA, Some ''rejected'')
      \<and> formatAndRender e1 renderer_New docA Default
        = Inl (Err ''failed to format document: rejected'')"
    by simp
  from b0 b1 b2 b3 b4 format_failure_aborts [where e = e2 and doc = docB and cfg = Default
      and olds = docB and refs = "[OldChild 0, OldChild 1, OldChild 2]"
      and err = "''raw text is not allowed''" and r = renderer_New
      and before = "[NHeading 9 ''A'' ''atx'']" and node = "NText ''x''"
      and after = "[NHeading 9 ''B'' ''atx'']" and ?node1.0 = "NText ''x''"]
  have c2: "Engine_Format e2 docB Default
        = ([NHeading 6 ''A'' ''atx'', NText ''x'', NHeading 9 ''B'' ''atx''],
           Some ''raw text is not allowed'')
      \<and> formatAndRender e2 renderer_New docB Default
        = Inl (Err ''failed to format document: raw text is not allowed'')"
    by simp
  from p1 format_failure_aborts [where parse = BasicParser_Parse and content = "''a  b''"
      and doc = "[NParagraph ''a  b'']" and cfg = Default, THEN conjunct2, THEN conjunct2,
      THEN mp, OF p]
  have c3: "formatMarkdownContent BasicParser_Parse ''a  b'' Default
        = formatAndRender (RegisterDefaults formatter_New) renderer_New [NParagraph ''a  b''] Default
      \<and> formatMarkdownContent BasicParser_Parse ''a  b'' Default = Inr (''a b'' @ [NL, NL])"
    by metis
  show ?thesis using c1 c2 c3 unfolding e1_def e2_def docA_def docB_def by (intro conjI) (erule conjE, assumption)+
qed

section \<open>C9: the pipeline is deterministic\<close>

text \<open>
  C9: formatting and rendering a tree under a configuration gives the same text, or
  the same failure, in every run. The engine is not changed by \<open>Format\<close>, and the one
  thing a run may find different, the state an earlier call has left in the renderer
  (\<open>r1\<close>, \<open>r2\<close>), has no influence: \<open>Render\<close> resets the buffer and stores the
  configuration first.
\<close>

theorem formatAndRender_deterministic:
  "formatAndRender e r1 doc cfg = formatAndRender e r2 doc cfg"
proof -
  have eq: "map_sum id fst (Render r1 d cfg) = map_sum id fst (Render r2 d cfg)" for d
    by (simp add: Render_def Let_def split: sum.splits)
  have "(case Render r1 d cfg of
                Inl (Err err) \<Rightarrow> Inl (Err (''failed to render document: '' @ err))
              | Inl (Panic p) \<Rightarrow> Inl (Panic p)
              | Inr (formatted, r) \<Rightarrow> Inr formatted)
           = (case Render r2 d cfg of
                Inl (Err err) \<Rightarrow> Inl (Err (''failed to render document: '' @ err))
              | Inl (Panic p) \<Rightarrow> Inl (Panic p)
              | Inr (formatted, r) \<Rightarrow> Inr formatted)" for d
    using eq [of d]
    by (cases "Render r1 d cfg"; cases "Render r2 d cfg") (auto split: fault.splits)
  then show ?thesis
    by (simp add: formatAndRender_def split: prod.splits option.splits)
qed

theorem formatAndRender_deterministic_witness:
  "formatAndRender (RegisterDefaults formatter_New) renderer_New [NHeading 9 ''T '' ''atx''] Default
     = formatAndRender (RegisterDefaults formatter_New)
         \<lparr>output_buf = ''left over'', config = Some (Default\<lparr>LineWidth := 3\<rparr>)\<rparr>
         [NHeading 9 ''T '' ''atx''] Default"
  using formatAndRender_deterministic [of "RegisterDefaults formatter_New" renderer_New
      "[NHeading 9 ''T '' ''atx'']" Default
      "\<lparr>output_buf = ''left over'', config = Some (Default\<lparr>LineWidth := 3\<rparr>)\<rparr>"]
  by simp

section \<open>C10: rendering never returns an error\<close>

lemma trimLeftSpace_length: "length (trimLeftSpace s) \<le> length s"
proof (induction s rule: trimLeftSpace.induct)
  case (1 s)
  show ?case
  proof (cases "spaceWidth s = 0")
    case True
    then show ?thesis by (simp add: trimLeftSpace.simps [of s])
  next
    case False
    then show ?thesis using 1 by (simp add: trimLeftSpace.simps [of s])
  qed
qed

lemma trimRightSpace_length: "length (trimRightSpace s) \<le> length s"
proof (induction s rule: trimRightSpace.induct)
  case (1 s)
  show ?case
  proof (cases "spaceWidthEnd s = 0")
    case True
    then show ?thesis by (simp add: trimRightSpace.simps [of s])
  next
    case False
    then show ?thesis using 1 by (simp add: trimRightSpace.simps [of s])
  qed
qed

lemma TrimSpace_length: "length (strings_TrimSpace s) \<le> length s"
  unfolding strings_TrimSpace_def
  using trimRightSpace_length [of "trimLeftSpace s"] trimLeftSpace_length [of s] by simp

lemma Repeat_no_error: "strings_Repeat s count \<noteq> Inl (Err err)"
  by (simp add: strings_Repeat_def)

lemma Repeat_fits:
  "0 \<le> count \<Longrightarrow> int (length s) * count \<le> maxAlloc \<Longrightarrow> \<exists>t. strings_Repeat s count = Inr t"
  by (simp add: strings_Repeat_def maxAlloc_def maxInt_def)

lemma renderHeading_no_error: "renderHeading level t style out \<noteq> Inl (Err err)"
  using Repeat_no_error
  by (auto simp: renderHeading_def Let_def split: sum.splits)

lemma renderHeading_fits:
  assumes "MinHeadingLevel \<le> level" and "level \<le> MaxHeadingLevel"
    and "int (length t) \<le> maxAlloc"
  shows "\<exists>out1. renderHeading level t style out = Inr out1"
proof (cases "style = ''setext'' \<and> level \<le> SecondHeadingLevel")
  case True
  define n where "n = int (length (strings_TrimSpace t))"
  have "n \<le> maxAlloc" using TrimSpace_length [of t] assms(3) by (simp add: n_def)
  then have "\<exists>u. strings_Repeat m (if n = 0 then 3 else n) = Inr u" if "length m = 1" for m
    using that by (intro Repeat_fits) (auto simp: n_def maxAlloc_def)
  from this [of "''-''"] this [of "''=''"] True show ?thesis
    by (auto simp: renderHeading_def Let_def n_def)
next
  case False
  have "\<exists>u. strings_Repeat ''#'' level = Inr u"
    using assms(1,2) by (intro Repeat_fits) (auto simp: MinHeadingLevel_def MaxHeadingLevel_def maxAlloc_def)
  with False show ?thesis by (auto simp: renderHeading_def)
qed

lemma render_no_error:
  "renderNode cfg n depth out \<noteq> Inl (Err err)"
  "renderNodes cfg ns depth out \<noteq> Inl (Err err)"
  "renderList cfg l depth out \<noteq> Inl (Err err)"
  "renderItems cfg items depth out \<noteq> Inl (Err err)"
  "renderListItem cfg item depth out \<noteq> Inl (Err err)"
proof (induction cfg n depth out and cfg ns depth out and cfg l depth out
    and cfg items depth out and cfg item depth out
    rule: renderNode_renderNodes_renderList_renderItems_renderListItem.induct)
  case (1 cfg level t style depth out)
  show ?case by (simp add: renderHeading_no_error)
next
  case (2 cfg t depth out)
  then show ?case by (simp add: renderParagraph_def Let_def)
next
  case (5 cfg language content fenced fence depth out)
  then show ?case by (simp add: renderCodeBlock_def Let_def)
next
  case (6 cfg content depth out)
  then show ?case by (simp add: renderText_def Let_def)
next
  case (9 cfg child children depth out)
  then show ?case by (auto split: sum.splits)
next
  case (10 cfg ordered items marker depth out)
  then show ?case by (auto split: sum.splits)
next
  case (12 cfg item items depth out)
  then show ?case by (auto split: sum.splits)
next
  case (13 cfg t marker children depth out)
  show ?case
  proof (cases "if depth > 1 then strings_Repeat ''  '' (depth - 1) else Inr []")
    case (Inl f)
    then have "f \<noteq> Err err"
      using Repeat_no_error [of "''  ''" "depth - 1" err] by (auto split: if_splits)
    with Inl show ?thesis by simp
  next
    case (Inr indent)
    show ?thesis
    proof (cases "length children > 0")
      case True
      from 13 [OF Inr refl refl True] Inr True show ?thesis by (simp add: Let_def)
    next
      case False
      with Inr show ?thesis by (simp add: Let_def)
    qed
  qed
qed simp_all

lemma render_fits:
  "nodeFits depth n \<longrightarrow> (\<exists>out1. renderNode cfg n depth out = Inr out1)"
  "list_all (nodeFits depth) ns \<longrightarrow> (\<exists>out1. renderNodes cfg ns depth out = Inr out1)"
  "listFits depth l \<longrightarrow> (\<exists>out1. renderList cfg l depth out = Inr out1)"
  "list_all (itemFits depth) items \<longrightarrow> (\<exists>out1. renderItems cfg items depth out = Inr out1)"
  "itemFits depth item \<longrightarrow> (\<exists>out1. renderListItem cfg item depth out = Inr out1)"
proof (induction cfg n depth out and cfg ns depth out and cfg l depth out
    and cfg items depth out and cfg item depth out
    rule: renderNode_renderNodes_renderList_renderItems_renderListItem.induct)
  case (1 cfg level t style depth out)
  show ?case using renderHeading_fits [of level t style out] by simp
next
  case (2 cfg t depth out)
  then show ?case by (simp add: renderParagraph_def Let_def)
next
  case (5 cfg language content fenced fence depth out)
  then show ?case by (simp add: renderCodeBlock_def Let_def)
next
  case (6 cfg content depth out)
  then show ?case by (simp add: renderText_def Let_def)
next
  case (9 cfg child children depth out)
  then show ?case by auto
next
  case (10 cfg ordered items marker depth out)
  then show ?case by auto
next
  case (12 cfg item items depth out)
  then show ?case by auto
next
  case (13 cfg t marker children depth out)
  show ?case
  proof
    assume fits: "itemFits depth (PListItem t marker children)"
    show "\<exists>out1. renderListItem cfg (PListItem t marker children) depth out = Inr out1"
    proof -
      have "\<exists>u. (if depth > 1 then strings_Repeat ''  '' (depth - 1) else Inr []) = Inr u"
      proof (cases "depth > 1")
        case True
        have "\<exists>u. strings_Repeat ''  '' (depth - 1) = Inr u"
          using True fits by (intro Repeat_fits) auto
        with True show ?thesis by simp
      next
        case False
        then show ?thesis by simp
      qed
      then obtain u
        where u: "(if depth > 1 then strings_Repeat ''  '' (depth - 1) else Inr []) = Inr u" ..
      show ?thesis
      proof (cases "length children > 0")
        case True
        from 13 [OF u refl refl True] fits u True show ?thesis by (simp add: Let_def)
      next
        case False
        with u show ?thesis by (simp add: Let_def)
      qed
    qed
  qed
qed simp_all

text \<open>
  C10, as stated, fails: a heading of negative level that is written in ATX style makes
  \<open>strings.Repeat\<close> panic, and so does a heading whose level is beyond what can be
  allocated; \<open>Render\<close> does not return a success for every tree.
\<close>

theorem Render_negative_level_counterexample:
  "Render renderer_New [NHeading (- 1) ''x'' ''atx''] Default
     = Inl (Panic ''strings: negative Repeat count'')
   \<and> Render renderer_New [NHeading (2 ^ 50) ''x'' ''atx''] Default
     = Inl (Panic ''runtime error: makeslice: len out of range'')"
  by code_simp

text \<open>
  C10, amended: for every tree and configuration \<open>Render\<close> never returns an error, as
  every branch of \<open>renderNode\<close>, also the one for a node of an unrecognized type,
  returns nil. For every tree of the data model, whose headings have a level from 1 to
  6, and that fits in memory, it returns a success.
\<close>

theorem Render_outcome:
  "(\<forall>err. Render r doc cfg \<noteq> Inl (Err err))
   \<and> (list_all (nodeFits 0) doc \<longrightarrow> (\<exists>rendered r1. Render r doc cfg = Inr (rendered, r1)))"
proof
  show "\<forall>err. Render r doc cfg \<noteq> Inl (Err err)"
    using render_no_error(2) [of cfg doc 0 "[]"]
    by (auto simp: Render_def renderDocument_def Let_def split: sum.splits)
  show "list_all (nodeFits 0) doc \<longrightarrow> (\<exists>rendered r1. Render r doc cfg = Inr (rendered, r1))"
    using render_fits(2) [of 0 doc cfg "[]"]
    by (auto simp: Render_def renderDocument_def Let_def)
qed

theorem Render_outcome_witness:
  "list_all (nodeFits 0)
     [NHeading 2 ''T'' ''atx'', NList (PList False [PListItem ''a'' ''-'' [NHeading 6 ''U'' ''setext'']] ''-''),
      NDocument [NHeading (- 1) ''x'' ''atx'']]
   \<and> (\<exists>rendered r1.
         Render renderer_New
           [NHeading 2 ''T'' ''atx'', NList (PList False [PListItem ''a'' ''-'' [NHeading 6 ''U'' ''setext'']] ''-''),
            NDocument [NHeading (- 1) ''x'' ''atx'']] Default
           = Inr (rendered, r1))"
proof -
  have fits: "list_all (nodeFits 0)
     [NHeading 2 ''T'' ''atx'', NList (PList False [PListItem ''a'' ''-'' [NHeading 6 ''U'' ''setext'']] ''-''),
      NDocument [NHeading (- 1) ''x'' ''atx'']]"
    by code_simp
  show ?thesis
    using fits Render_outcome [of renderer_New
      "[NHeading 2 ''T'' ''atx'', NList (PList False [PListItem ''a'' ''-'' [NHeading 6 ''U'' ''setext'']] ''-''),
        NDocument [NHeading (- 1) ''x'' ''atx'']]" Default]
    by blast
qed

end
